theory Spec2Isabelle
  imports Complex_Main
begin

section \<open>Python values and the runtime\<close>

text \<open>
  The program is Python. Its \<open>float\<close> is idealised as \<^typ>\<open>real\<close>: rounding and the
  non-finite floats are not represented, and where pandas holds a missing value (NaN) a
  cell is a \<^typ>\<open>real option\<close> with \<open>None\<close> for NaN. A naive \<open>datetime\<close> is the
  number of microseconds from 1970-01-01T00:00:00, an \<^typ>\<open>int\<close>. An exception is a
  value of \<open>pyerror\<close>, and a call that may raise returns \<open>pyerror + 'a\<close>.
\<close>

datatype pyerror =
    TypeError | ValueError | AttributeError | OverflowError | KeyError
  | JSONDecodeError | OperationalError string | CancelledError

text \<open>\<open>except Exception\<close> catches every exception class but the ones that derive from
  \<open>BaseException\<close> only; of the errors above that is \<open>CancelledError\<close>.\<close>

definition is_Exception :: "pyerror \<Rightarrow> bool" where
  "is_Exception e = (e \<noteq> CancelledError)"

datatype level = DEBUG | INFO | WARNING | ERROR

type_synonym log_entry = "level \<times> string"

text \<open>What \<open>json.loads\<close> returns: \<open>None\<close>, a bool, an int, a float, a str, a list or a
  dict (its items, keys distinct).\<close>

datatype json =
    JNull | JBool bool | JInt int | JFloat real | JStr string
  | JArr "json list" | JObj "(string \<times> json) list"

text \<open>A raw websocket message, given by what \<open>json.loads\<close> does with it.\<close>

datatype raw = Undecodable | Decoded json

text \<open>
  The parts of the Python runtime that the idealisation of floats cannot define:
  \<open>float(s)\<close> on a string (\<open>None\<close> where it raises ValueError), the \<open>str\<close> of a float,
  and \<open>datetime.fromtimestamp\<close> (it depends on the local time zone; \<open>None\<close> where the
  platform rejects the value).
\<close>

record runtime =
  float_of_str :: "string \<Rightarrow> real option"
  str_of_float :: "real \<Rightarrow> string"
  fromtimestamp :: "real \<Rightarrow> int option"

definition truthy :: "json \<Rightarrow> bool" where
  "truthy v = (case v of
      JNull \<Rightarrow> False
    | JBool b \<Rightarrow> b
    | JInt i \<Rightarrow> i \<noteq> 0
    | JFloat r \<Rightarrow> r \<noteq> 0
    | JStr s \<Rightarrow> s \<noteq> []
    | JArr xs \<Rightarrow> xs \<noteq> []
    | JObj kvs \<Rightarrow> kvs \<noteq> [])"

definition py_or :: "json \<Rightarrow> json \<Rightarrow> json" where
  "py_or a b = (if truthy a then a else b)"

definition dict_get :: "(string \<times> json) list \<Rightarrow> string \<Rightarrow> json \<Rightarrow> json" where
  "dict_get d k dflt = (case map_of d k of None \<Rightarrow> dflt | Some v \<Rightarrow> v)"

text \<open>An int converts to a float unless it rounds to \<open>2 ^ 1024\<close> or beyond.\<close>

definition float_limit :: int where
  "float_limit = 2 ^ 1024 - 2 ^ 970"

definition py_float :: "runtime \<Rightarrow> json \<Rightarrow> pyerror + real" where
  "py_float rt v = (case v of
      JNull \<Rightarrow> Inl TypeError
    | JBool b \<Rightarrow> Inr (if b then 1 else 0)
    | JInt i \<Rightarrow> (if \<bar>i\<bar> < float_limit then Inr (real_of_int i) else Inl OverflowError)
    | JFloat r \<Rightarrow> Inr r
    | JStr s \<Rightarrow> (case float_of_str rt s of None \<Rightarrow> Inl ValueError | Some r \<Rightarrow> Inr r)
    | JArr xs \<Rightarrow> Inl TypeError
    | JObj kvs \<Rightarrow> Inl TypeError)"

text \<open>\<open>timestamp / 1000\<close>.\<close>

definition div_1000 :: "json \<Rightarrow> pyerror + real" where
  "div_1000 v = (case v of
      JBool b \<Rightarrow> Inr ((if b then 1 else 0) / 1000)
    | JInt i \<Rightarrow> (if \<bar>i\<bar> < float_limit * 1000 then Inr (real_of_int i / 1000)
                 else Inl OverflowError)
    | JFloat r \<Rightarrow> Inr (r / 1000)
    | _ \<Rightarrow> Inl TypeError)"

text \<open>Strings are byte strings here: \<open>lower\<close> and \<open>strip\<close> act on the ASCII letters and the
  ASCII white space, as Python's do on ASCII text (the symbols of the exchange).\<close>

definition lower_char :: "char \<Rightarrow> char" where
  "lower_char c =
     (if 65 \<le> (of_char c :: nat) \<and> (of_char c :: nat) \<le> 90
      then char_of ((of_char c :: nat) + 32) else c)"

definition lower :: "string \<Rightarrow> string" where
  "lower s = map lower_char s"

definition py_isspace :: "char \<Rightarrow> bool" where
  "py_isspace c = ((of_char c :: nat) \<in> {9, 10, 11, 12, 13, 28, 29, 30, 31, 32})"

definition strip :: "string \<Rightarrow> string" where
  "strip s = rev (dropWhile py_isspace (rev (dropWhile py_isspace s)))"

text \<open>\<open>data.get('s', '').lower()\<close>: only a str has \<open>lower\<close>.\<close>

definition str_lower :: "json \<Rightarrow> pyerror + string" where
  "str_lower v = (case v of JStr s \<Rightarrow> Inr (lower s) | _ \<Rightarrow> Inl AttributeError)"

subsection \<open>\<open>datetime.isoformat\<close>\<close>

definition digit_char :: "int \<Rightarrow> char" where
  "digit_char d = ''0123456789'' ! nat d"

fun zpad :: "nat \<Rightarrow> int \<Rightarrow> string" where
  "zpad 0 n = []"
| "zpad (Suc k) n = zpad k (n div 10) @ [digit_char (n mod 10)]"

text \<open>Year, month and day of a day count from 1970-01-01 (proleptic Gregorian).\<close>

definition civil_from_days :: "int \<Rightarrow> int \<times> int \<times> int" where
  "civil_from_days z0 =
     (let z = z0 + 719468;
          era = z div 146097;
          doe = z mod 146097;
          yoe = (doe - doe div 1460 + doe div 36524 - doe div 146096) div 365;
          doy = doe - (365 * yoe + yoe div 4 - yoe div 100);
          mp = (5 * doy + 2) div 153;
          d = doy - (153 * mp + 2) div 5 + 1;
          m = (if mp < 10 then mp + 3 else mp - 9);
          y = yoe + era * 400 + (if m \<le> 2 then 1 else 0)
      in (y, m, d))"

definition isoformat :: "int \<Rightarrow> string" where
  "isoformat ts =
     (let days = ts div 86400000000;
          r = ts mod 86400000000;
          secs = r div 1000000;
          us = r mod 1000000
      in case civil_from_days days of (y, m, d) \<Rightarrow>
           zpad 4 y @ ''-'' @ zpad 2 m @ ''-'' @ zpad 2 d @ ''T''
           @ zpad 2 (secs div 3600) @ '':'' @ zpad 2 (secs mod 3600 div 60)
           @ '':'' @ zpad 2 (secs mod 60)
           @ (if us = 0 then [] else ''.'' @ zpad 6 us))"

section \<open>database.py\<close>

text \<open>A row of the \<open>ticks\<close> table (and the dict that \<open>normalize\<close> builds), and a row of
  the \<open>ohlc\<close> table. Both tables are keyed by the string column \<open>id\<close>.\<close>

record tick =
  t_symbol :: string
  t_timestamp :: int
  t_price :: real
  t_size :: real

record ohlc_row =
  o_symbol :: string
  o_timestamp :: int
  o_timeframe :: string
  o_open :: real
  o_high :: real
  o_low :: real
  o_close :: real
  o_volume :: real

record database =
  ticks :: "string \<rightharpoonup> tick"
  ohlc :: "string \<rightharpoonup> ohlc_row"
  db_log :: "log_entry list"

definition empty_db :: database where
  "empty_db = \<lparr>ticks = Map.empty, ohlc = Map.empty, db_log = []\<rparr>"

definition tick_id :: "runtime \<Rightarrow> tick \<Rightarrow> string" where
  "tick_id rt t =
     t_symbol t @ ''_'' @ isoformat (t_timestamp t) @ ''_''
     @ str_of_float rt (t_price t) @ ''_'' @ str_of_float rt (t_size t)"

definition ohlc_id :: "string \<Rightarrow> string \<Rightarrow> int \<Rightarrow> string" where
  "ohlc_id symbol timeframe timestamp =
     symbol @ ''_'' @ timeframe @ ''_'' @ isoformat timestamp"

text \<open>
  \<open>session.merge\<close> stores the row under its primary key, replacing the row that has
  the key. The argument \<open>fault\<close> is the environment: \<open>Some msg\<close> when the session raises
  (in \<open>merge\<close> or \<open>commit\<close>) with message \<open>msg\<close>. The \<open>except\<close> clause then logs and rolls
  back, which leaves the table as it was; nothing is raised to the caller.
\<close>

definition insert_ticks_batch ::
  "runtime \<Rightarrow> string option \<Rightarrow> database \<Rightarrow> tick list \<Rightarrow> pyerror + database" where
  "insert_ticks_batch rt fault db batch = (case fault of
      None \<Rightarrow> Inr (db\<lparr>ticks := foldl (\<lambda>tbl t. tbl(tick_id rt t \<mapsto> t)) (ticks db) batch\<rparr>)
    | Some msg \<Rightarrow> Inr (db\<lparr>db_log := db_log db @ [(ERROR, ''Error inserting batch: '' @ msg)]\<rparr>))"

definition insert_ohlc ::
  "string option \<Rightarrow> database \<Rightarrow> string \<Rightarrow> int \<Rightarrow> string \<Rightarrow> real \<Rightarrow> real \<Rightarrow> real \<Rightarrow> real \<Rightarrow> real
     \<Rightarrow> pyerror + database" where
  "insert_ohlc fault db symbol timestamp timeframe op hi lo cl vol = (case fault of
      None \<Rightarrow> Inr (db\<lparr>ohlc := (ohlc db)(ohlc_id symbol timeframe timestamp \<mapsto>
          \<lparr>o_symbol = symbol, o_timestamp = timestamp, o_timeframe = timeframe,
           o_open = op, o_high = hi, o_low = lo, o_close = cl, o_volume = vol\<rparr>)\<rparr>)
    | Some msg \<Rightarrow> Inr (db\<lparr>db_log := db_log db @ [(ERROR, ''Error inserting OHLC: '' @ msg)]\<rparr>))"

text \<open>A history of calls of \<open>insert_ohlc\<close>: the fault and the arguments of each call, in
  order.\<close>

fun insert_ohlc_all :: "(string option \<times> ohlc_row) list \<Rightarrow> database \<Rightarrow> pyerror + database" where
  "insert_ohlc_all [] d = Inr d"
| "insert_ohlc_all ((fault, r) # calls) d =
     (case insert_ohlc fault d (o_symbol r) (o_timestamp r) (o_timeframe r)
             (o_open r) (o_high r) (o_low r) (o_close r) (o_volume r) of
        Inl e \<Rightarrow> Inl e
      | Inr d' \<Rightarrow> insert_ohlc_all calls d')"

section \<open>data_collector.py\<close>

definition MAX_RECONNECT_DELAY :: int where
  "MAX_RECONNECT_DELAY = 60"

definition INITIAL_RECONNECT_DELAY :: int where
  "INITIAL_RECONNECT_DELAY = 1"

record collector =
  symbols :: "string list"
  db :: database
  running :: bool
  buffer :: "tick list"
  reconnect_delays :: "string \<rightharpoonup> int"
  logged :: "log_entry list"

definition init_collector :: "string list \<Rightarrow> database \<Rightarrow> pyerror + collector" where
  "init_collector syms d =
     (let ss = map (\<lambda>s. strip (lower s)) (filter (\<lambda>s. strip s \<noteq> []) syms)
      in if ss = [] then Inl ValueError
         else Inr \<lparr>symbols = ss, db = d, running = False, buffer = [],
                   reconnect_delays = map_of (map (\<lambda>s. (s, INITIAL_RECONNECT_DELAY)) ss),
                   logged = []\<rparr>)"

definition signal_handler :: "collector \<Rightarrow> collector" where
  "signal_handler st =
     st\<lparr>running := False,
        logged := logged st @ [(INFO, ''Received signal, shutting down gracefully...'')]\<rparr>"

text \<open>\<open>normalize\<close> (the name is taken in HOL, hence \<open>normalize_trade\<close>); \<open>now\<close> is what
  \<open>datetime.utcnow()\<close> returns.\<close>

definition normalize_trade :: "runtime \<Rightarrow> int \<Rightarrow> (string \<times> json) list \<Rightarrow> pyerror + tick" where
  "normalize_trade rt now data =
     (let timestamp = py_or (py_or (dict_get data ''T'' JNull) (dict_get data ''E'' JNull))
                            (dict_get data ''t'' JNull)
      in case (if truthy timestamp
               then (case div_1000 timestamp of
                       Inl e \<Rightarrow> Inl e
                     | Inr x \<Rightarrow> (case fromtimestamp rt x of
                                   None \<Rightarrow> Inl OverflowError
                                 | Some ts \<Rightarrow> Inr ts))
               else Inr now) of
           Inl e \<Rightarrow> Inl e
         | Inr ts \<Rightarrow>
            (case str_lower (dict_get data ''s'' (JStr [])) of
               Inl e \<Rightarrow> Inl e
             | Inr sy \<Rightarrow>
                (case py_float rt (dict_get data ''p'' (JInt 0)) of
                   Inl e \<Rightarrow> Inl e
                 | Inr p \<Rightarrow>
                    (case py_float rt (dict_get data ''q'' (JInt 0)) of
                       Inl e \<Rightarrow> Inl e
                     | Inr q \<Rightarrow>
                        Inr \<lparr>t_symbol = sy, t_timestamp = ts, t_price = p, t_size = q\<rparr>))))"

text \<open>The body of the \<open>try\<close> of \<open>handle_trade\<close>.\<close>

definition handle_trade_try ::
  "runtime \<Rightarrow> int \<Rightarrow> string \<Rightarrow> raw \<Rightarrow> collector \<Rightarrow> pyerror + collector" where
  "handle_trade_try rt now symbol message st = (case message of
      Undecodable \<Rightarrow> Inl JSONDecodeError
    | Decoded data \<Rightarrow> (case data of
          JObj kvs \<Rightarrow>
            (if dict_get kvs ''e'' JNull = JStr ''trade''
             then (case normalize_trade rt now kvs of
                     Inl e \<Rightarrow> Inl e
                   | Inr normalized \<Rightarrow>
                       Inr (st\<lparr>buffer := buffer st @ [normalized],
                               logged := logged st @ [(DEBUG, ''Received trade for '' @ symbol)]\<rparr>))
             else Inr st)
        | _ \<Rightarrow> Inl AttributeError))"

definition handle_trade ::
  "runtime \<Rightarrow> int \<Rightarrow> string \<Rightarrow> raw \<Rightarrow> collector \<Rightarrow> pyerror + collector" where
  "handle_trade rt now symbol message st = (case handle_trade_try rt now symbol message st of
      Inr st' \<Rightarrow> Inr st'
    | Inl e \<Rightarrow>
        (if e = JSONDecodeError
         then Inr (st\<lparr>logged := logged st @ [(ERROR, ''Failed to parse JSON for '' @ symbol)]\<rparr>)
         else if is_Exception e
         then Inr (st\<lparr>logged := logged st @ [(ERROR, ''Error handling trade for '' @ symbol)]\<rparr>)
         else Inl e))"

text \<open>
  \<open>connect_symbol\<close> is a loop around awaits. Its control points are the awaits:
  connecting, receiving the next message, sleeping (with the local variable \<open>delay\<close>),
  and the two ways the task ends. The environment is a sequence of events: the signal
  handler runs, the connection is established or raises, a message arrives (with the
  clock reading), the receive raises, the stream ends, the sleep is over.
\<close>

datatype conn_exn = ConnectionClosed | InvalidURI | OtherError

datatype loc = Connecting | Receiving | Sleeping int | Exited | Crashed pyerror

datatype event =
    Signal | ConnectOk | ConnectRaises conn_exn | Message raw int
  | ReceiveRaises conn_exn | StreamEnd | SleepOver

text \<open>The head of \<open>while self.running\<close>.\<close>

definition loop_head :: "string \<Rightarrow> collector \<Rightarrow> loc \<times> collector" where
  "loop_head symbol st =
     (if running st
      then (Connecting, st\<lparr>logged := logged st @ [(INFO, ''Connecting to '' @ symbol @ '' stream...'')]\<rparr>)
      else (Exited, st))"

text \<open>The code after the \<open>try\<close>: \<open>if self.running\<close>, read the delay and sleep.\<close>

definition after_try :: "string \<Rightarrow> collector \<Rightarrow> loc \<times> collector" where
  "after_try symbol st =
     (if running st
      then (case reconnect_delays st symbol of
              None \<Rightarrow> (Crashed KeyError, st)
            | Some delay \<Rightarrow>
                (Sleeping delay,
                 st\<lparr>logged := logged st @ [(INFO, ''Reconnecting '' @ symbol)]\<rparr>))
      else loop_head symbol st)"

definition except_clause :: "string \<Rightarrow> conn_exn \<Rightarrow> collector \<Rightarrow> loc \<times> collector" where
  "except_clause symbol x st = (case x of
      ConnectionClosed \<Rightarrow>
        after_try symbol
          (st\<lparr>logged := logged st @ [(WARNING, ''Connection closed for '' @ symbol @ '', reconnecting...'')]\<rparr>)
    | InvalidURI \<Rightarrow>
        (Exited, st\<lparr>logged := logged st @ [(ERROR, ''Invalid URI for '' @ symbol)]\<rparr>)
    | OtherError \<Rightarrow>
        after_try symbol
          (st\<lparr>logged := logged st @ [(ERROR, ''Error in connection for '' @ symbol)]\<rparr>))"

fun step :: "runtime \<Rightarrow> string \<Rightarrow> event \<Rightarrow> loc \<times> collector \<Rightarrow> loc \<times> collector" where
  "step rt symbol Signal (l, st) = (l, signal_handler st)"
| "step rt symbol ConnectOk (Connecting, st) =
     (Receiving,
      st\<lparr>logged := logged st @ [(INFO, ''Connected to '' @ symbol @ '' stream'')],
         reconnect_delays := (reconnect_delays st)(symbol \<mapsto> INITIAL_RECONNECT_DELAY)\<rparr>)"
| "step rt symbol (ConnectRaises x) (Connecting, st) = except_clause symbol x st"
| "step rt symbol (Message m now) (Receiving, st) =
     (if \<not> running st then after_try symbol st
      else (case handle_trade rt now symbol m st of
              Inr st' \<Rightarrow> (Receiving, st')
            | Inl e \<Rightarrow> (if is_Exception e then except_clause symbol OtherError st
                        else (Crashed e, st))))"
| "step rt symbol (ReceiveRaises x) (Receiving, st) = except_clause symbol x st"
| "step rt symbol StreamEnd (Receiving, st) = after_try symbol st"
| "step rt symbol SleepOver (Sleeping delay, st) =
     loop_head symbol
       (st\<lparr>reconnect_delays :=
            (reconnect_delays st)(symbol \<mapsto> min (delay * 2) MAX_RECONNECT_DELAY)\<rparr>)"
| "step rt symbol ev (l, st) = (l, st)"

text \<open>The task, run on a finite sequence of events (an event that cannot happen at the
  current control point is skipped).\<close>

definition connect_symbol ::
  "runtime \<Rightarrow> string \<Rightarrow> event list \<Rightarrow> collector \<Rightarrow> loc \<times> collector" where
  "connect_symbol rt symbol evs st = foldl (\<lambda>s ev. step rt symbol ev s) (loop_head symbol st) evs"

text \<open>
  \<open>run\<close> starts one such task for each symbol of the collector, all on the one
  collector: the tasks take turns at their awaits. A run of the tasks together is a
  sequence of events, each with the number of the task it belongs to (the signal handler
  stops them all, whichever task it is listed with).
\<close>

definition start_tasks :: "collector \<Rightarrow> loc list \<times> collector" where
  "start_tasks st =
     foldl (\<lambda>s symbol. case loop_head symbol (snd s) of (l, st') \<Rightarrow> (fst s @ [l], st'))
       ([], st) (symbols st)"

definition task_step :: "runtime \<Rightarrow> nat \<times> event \<Rightarrow> loc list \<times> collector \<Rightarrow> loc list \<times> collector" where
  "task_step rt te s =
     (if fst te < length (fst s) \<and> fst te < length (symbols (snd s))
      then (case step rt (symbols (snd s) ! fst te) (snd te) (fst s ! fst te, snd s) of
              (l', st') \<Rightarrow> ((fst s)[fst te := l'], st'))
      else s)"

definition connect_all :: "runtime \<Rightarrow> (nat \<times> event) list \<Rightarrow> collector \<Rightarrow> loc list \<times> collector" where
  "connect_all rt tevs st = foldl (\<lambda>s te. task_step rt te s) (start_tasks st) tevs"

text \<open>
  One turn of the loop of \<open>save_buffer\<close> after its sleep, and the loop on a finite
  script: for each turn the ticks that the connections appended during the sleep,
  whether the signal handler ran during the sleep, and the fault of the write.
\<close>

definition save_buffer_iter :: "runtime \<Rightarrow> string option \<Rightarrow> collector \<Rightarrow> pyerror + collector" where
  "save_buffer_iter rt fault st =
     (if buffer st = [] then Inr st
      else (case insert_ticks_batch rt fault (db st) (buffer st) of
              Inr d \<Rightarrow> Inr (st\<lparr>db := d,
                               logged := logged st @ [(DEBUG, ''Saved trades to database'')],
                               buffer := []\<rparr>)
            | Inl e \<Rightarrow> (if is_Exception e
                        then Inr (st\<lparr>logged := logged st @ [(ERROR, ''Error saving buffer'')]\<rparr>)
                        else Inl e)))"

fun save_buffer ::
  "runtime \<Rightarrow> (tick list \<times> bool \<times> string option) list \<Rightarrow> collector \<Rightarrow> pyerror + collector" where
  "save_buffer rt [] st = Inr st"
| "save_buffer rt ((arrived, stop, fault) # script) st =
     (if \<not> running st then Inr st
      else (case save_buffer_iter rt fault
                   (st\<lparr>buffer := buffer st @ arrived, running := running st \<and> \<not> stop\<rparr>) of
              Inl e \<Rightarrow> Inl e
            | Inr st' \<Rightarrow> save_buffer rt script st'))"

section \<open>analytics.py\<close>

text \<open>
  A pandas Series of floats is a list of cells, \<open>None\<close> for NaN. A function that
  returns a dict with the key \<open>error\<close> instead of its result returns \<open>ErrorDict\<close>.
  The quotient of two cells is a float of numpy: a number, NaN, or an infinity (a
  non-zero number divided by zero).
\<close>

datatype 'a result = ErrorDict string | Dict 'a

datatype npfloat = Num real | NaN | Infinite

definition np_sub :: "real option \<Rightarrow> real option \<Rightarrow> real option" where
  "np_sub a b = (case (a, b) of (Some x, Some y) \<Rightarrow> Some (x - y) | _ \<Rightarrow> None)"

definition np_div :: "real option \<Rightarrow> real option \<Rightarrow> npfloat" where
  "np_div a b = (case (a, b) of
      (Some x, Some y) \<Rightarrow> (if y = 0 then (if x = 0 then NaN else Infinite) else Num (x / y))
    | _ \<Rightarrow> NaN)"

definition dropna :: "real option list \<Rightarrow> real list" where
  "dropna series = List.map_filter (\<lambda>c. c) series"

subsection \<open>\<open>compute_spread\<close>\<close>

text \<open>
  A price frame is the list of its rows, each the \<open>timestamp\<close> and the price column.
  \<open>sort_values\<close> is taken to keep rows of equal timestamp in their order.
  \<open>merge_asof\<close> with its default direction keeps every row of the left frame and
  gives it the last row of the right frame whose key is at or before the left key, or
  NaN when there is none.
\<close>

type_synonym price_row = "int \<times> real"

definition asof_backward :: "price_row list \<Rightarrow> int \<Rightarrow> real option" where
  "asof_backward right t = (case filter (\<lambda>r. fst r \<le> t) right of
      [] \<Rightarrow> None
    | r # rs \<Rightarrow> Some (snd (last (r # rs))))"

definition merge_asof :: "price_row list \<Rightarrow> price_row list \<Rightarrow> (int \<times> real \<times> real option) list" where
  "merge_asof left right = map (\<lambda>l. (fst l, snd l, asof_backward right (fst l))) left"

text \<open>\<open>if hedge_ratio:\<close> on an \<open>Optional[float]\<close>.\<close>

definition truthy_float :: "real option \<Rightarrow> bool" where
  "truthy_float h = (case h of None \<Rightarrow> False | Some x \<Rightarrow> x \<noteq> 0)"

definition compute_spread :: "price_row list \<Rightarrow> price_row list \<Rightarrow> real option \<Rightarrow> real option list" where
  "compute_spread df1 df2 hedge_ratio =
     (if df1 = [] \<or> df2 = [] then []
      else (let merged = merge_asof (sort_key fst df1) (sort_key fst df2)
            in if truthy_float hedge_ratio
               then map (\<lambda>(t, p1, p2). np_sub p2 (Some (the hedge_ratio * p1))) merged
               else map (\<lambda>(t, p1, p2). np_sub p2 (Some p1)) merged))"

text \<open>
  The spread in the words of the specification, to compare with: each row of series B
  is paired with the most recent row of series A at or before its timestamp, and the
  spread of the pair is \<open>priceB - hedge_ratio * priceA\<close>, the hedge ratio being 1 when
  it is not supplied.
\<close>

definition spread_as_specified ::
  "price_row list \<Rightarrow> price_row list \<Rightarrow> real option \<Rightarrow> real option list" where
  "spread_as_specified seriesA seriesB hedge_ratio =
     map (\<lambda>b. np_sub (Some (snd b))
                (case asof_backward (sort_key fst seriesA) (fst b) of
                   None \<Rightarrow> None
                 | Some pa \<Rightarrow> Some ((case hedge_ratio of None \<Rightarrow> 1 | Some h \<Rightarrow> h) * pa)))
         (sort_key fst seriesB)"

subsection \<open>\<open>compute_zscore\<close>\<close>

text \<open>
  \<open>series.rolling(window).mean()\<close> and \<open>series.rolling(window).std()\<close> are pandas'
  functions and compute in floating point, with an algorithm that carries sums from
  one window to the next: their results are not those of exact arithmetic (a deviation
  may come out as exactly \<open>0.0\<close> on a window whose cells differ, when the squares
  underflow). They are parameters here: each returns, for a series and a window, the
  series of its results, a cell being a number or NaN.
\<close>

record pandas =
  rolling_mean :: "real option list \<Rightarrow> nat \<Rightarrow> real option list"
  rolling_std :: "real option list \<Rightarrow> nat \<Rightarrow> real option list"

text \<open>\<open>.replace(0, np.nan)\<close>.\<close>

definition replace_zero :: "real option \<Rightarrow> real option" where
  "replace_zero c = (case c of None \<Rightarrow> None | Some v \<Rightarrow> (if v = 0 then None else Some v))"

definition compute_zscore :: "pandas \<Rightarrow> real option list \<Rightarrow> nat \<Rightarrow> npfloat list" where
  "compute_zscore pd series w =
     (if series = [] then []
      else map2 np_div (map2 np_sub series (rolling_mean pd series w))
                       (map replace_zero (rolling_std pd series w)))"

subsection \<open>\<open>compute_adf_test\<close>\<close>

text \<open>
  \<open>adfuller\<close> is statsmodels' function, a parameter here: on the cleaned series and
  \<open>maxlag\<close> it returns its tuple or raises (\<open>Inl\<close>, with the text of the exception).
\<close>

record adf_tuple =
  adf_stat :: real
  adf_pvalue :: real
  adf_usedlag :: nat
  adf_nobs :: nat
  adf_crit :: "(string \<times> real) list"

record adf_dict =
  adf_statistic :: real
  pvalue :: real
  critical_values :: "(string \<times> real) list"
  n_lags :: nat
  n_observations :: nat
  is_stationary :: bool

definition compute_adf_test ::
  "(real list \<Rightarrow> nat option \<Rightarrow> string + adf_tuple) \<Rightarrow> real option list \<Rightarrow> nat option
     \<Rightarrow> adf_dict result" where
  "compute_adf_test adfuller series maxlag =
     (if series = [] \<or> length series < 10 then ErrorDict ''Insufficient data for ADF test''
      else (let series_clean = dropna series
            in if length series_clean < 10 then ErrorDict ''Insufficient valid data''
               else (case adfuller series_clean maxlag of
                       Inl msg \<Rightarrow> ErrorDict msg
                     | Inr r \<Rightarrow>
                         Dict \<lparr>adf_statistic = adf_stat r, pvalue = adf_pvalue r,
                               critical_values = adf_crit r, n_lags = adf_usedlag r,
                               n_observations = adf_nobs r,
                               is_stationary = (adf_pvalue r < 0.05)\<rparr>)))"

subsection \<open>\<open>resample_data\<close>\<close>

text \<open>
  The frame of ticks is the list of its rows; it has the columns \<open>timestamp\<close>,
  \<open>price\<close> and \<open>size\<close>. \<open>resample(freq)\<close> sorts the index (keeping rows of equal
  timestamp in their order), and its bins are the intervals \<open>[b, b + w)\<close> for the labels
  \<open>b\<close> from the bin of the least timestamp to the bin of the greatest, \<open>w\<close> apart; a label
  is a multiple of \<open>w\<close> from midnight, hence (as \<open>w\<close> divides a day) from the epoch.
  \<open>ohlc()\<close> of a bin with no row is NaN and \<open>sum()\<close> of it is 0; \<open>dropna\<close> removes the
  rows that have a NaN.
\<close>

definition freq_map :: "string \<rightharpoonup> string" where
  "freq_map = [''1s'' \<mapsto> ''1S'', ''1m'' \<mapsto> ''1T'', ''5m'' \<mapsto> ''5T'']"

text \<open>The length in microseconds of the three pandas frequencies in use.\<close>

definition to_offset :: "string \<Rightarrow> int" where
  "to_offset f = (if f = ''1S'' then 1000000 else if f = ''5T'' then 300000000 else 60000000)"

definition bin_start :: "int \<Rightarrow> int \<Rightarrow> int" where
  "bin_start w t = t - t mod w"

definition bin_labels :: "int \<Rightarrow> int list \<Rightarrow> int list" where
  "bin_labels w index =
     (let first = bin_start w (Min (set index)); last = bin_start w (Max (set index))
      in map (\<lambda>k. first + int k * w) [0..<Suc (nat ((last - first) div w))])"

record raw_bar =
  r_timestamp :: int
  r_open :: "real option"
  r_high :: "real option"
  r_low :: "real option"
  r_close :: "real option"
  r_volume :: real

record bar =
  b_timestamp :: int
  b_open :: real
  b_high :: real
  b_low :: real
  b_close :: real
  b_volume :: real

definition in_bin :: "int \<Rightarrow> int \<Rightarrow> tick \<Rightarrow> bool" where
  "in_bin w b t = (b \<le> t_timestamp t \<and> t_timestamp t < b + w)"

definition agg_bin :: "int \<Rightarrow> tick list \<Rightarrow> int \<Rightarrow> raw_bar" where
  "agg_bin w sorted_df b =
     (let g = filter (in_bin w b) sorted_df; ps = map t_price g
      in \<lparr>r_timestamp = b,
          r_open = (if ps = [] then None else Some (hd ps)),
          r_high = (if ps = [] then None else Some (Max (set ps))),
          r_low = (if ps = [] then None else Some (Min (set ps))),
          r_close = (if ps = [] then None else Some (last ps)),
          r_volume = sum_list (map t_size g)\<rparr>)"

definition dropna_bar :: "raw_bar \<Rightarrow> bar option" where
  "dropna_bar r = (case (r_open r, r_high r, r_low r, r_close r) of
      (Some op, Some hi, Some lo, Some cl) \<Rightarrow>
        Some \<lparr>b_timestamp = r_timestamp r, b_open = op, b_high = hi, b_low = lo,
              b_close = cl, b_volume = r_volume r\<rparr>
    | _ \<Rightarrow> None)"

definition resample_data :: "tick list \<Rightarrow> string \<Rightarrow> bar list" where
  "resample_data df timeframe =
     (if df = [] then []
      else (let freq = (case freq_map timeframe of None \<Rightarrow> ''1T'' | Some f \<Rightarrow> f);
                w = to_offset freq;
                sorted_df = sort_key t_timestamp df
            in List.map_filter dropna_bar
                 (map (agg_bin w sorted_df) (bin_labels w (map t_timestamp df)))))"

text \<open>
  The same function on a frame as pandas holds it: \<open>price\<close> and \<open>size\<close> are float
  columns, and a cell of either may be NaN (a NULL of the database, or the price
  \<open>float('nan')\<close> that \<open>normalize\<close> lets through). \<open>ohlc()\<close> and \<open>sum()\<close> skip the NaN
  cells of a bin: the open is the first price that is a number, the close the last,
  and a bin whose prices are all NaN is a row of NaN like an empty bin, which
  \<open>dropna\<close> removes.
\<close>

record frame_row =
  f_timestamp :: int
  f_price :: "real option"
  f_size :: "real option"

text \<open>The row of a Tick: its cells are numbers.\<close>

definition frame_row_of :: "tick \<Rightarrow> frame_row" where
  "frame_row_of t =
     \<lparr>f_timestamp = t_timestamp t, f_price = Some (t_price t), f_size = Some (t_size t)\<rparr>"

definition in_frame_bin :: "int \<Rightarrow> int \<Rightarrow> frame_row \<Rightarrow> bool" where
  "in_frame_bin w b r = (b \<le> f_timestamp r \<and> f_timestamp r < b + w)"

definition agg_frame_bin :: "int \<Rightarrow> frame_row list \<Rightarrow> int \<Rightarrow> raw_bar" where
  "agg_frame_bin w sorted_df b =
     (let g = filter (in_frame_bin w b) sorted_df; ps = dropna (map f_price g)
      in \<lparr>r_timestamp = b,
          r_open = (if ps = [] then None else Some (hd ps)),
          r_high = (if ps = [] then None else Some (Max (set ps))),
          r_low = (if ps = [] then None else Some (Min (set ps))),
          r_close = (if ps = [] then None else Some (last ps)),
          r_volume = sum_list (dropna (map f_size g))\<rparr>)"

definition resample_frame :: "frame_row list \<Rightarrow> string \<Rightarrow> bar list" where
  "resample_frame df timeframe =
     (if df = [] then []
      else (let freq = (case freq_map timeframe of None \<Rightarrow> ''1T'' | Some f \<Rightarrow> f);
                w = to_offset freq;
                sorted_df = sort_key f_timestamp df
            in List.map_filter dropna_bar
                 (map (agg_frame_bin w sorted_df) (bin_labels w (map f_timestamp df)))))"

section \<open>data_processor.py\<close>

text \<open>
  One cycle of \<open>process_timeframe\<close> reads through the database; what the reads return
  is the environment of the cycle: the reply of \<open>get_symbols\<close>, the reply of
  \<open>get_ticks\<close> for a symbol and the last hour (either may raise), and for each write
  of a bar its fault, by the bar's id. A function that changes the state before it
  raises returns the state together with the exception, \<open>None\<close> when it returns
  normally.
\<close>

record cycle_env =
  symbols_reply :: "pyerror + string list"
  ticks_reply :: "string \<Rightarrow> pyerror + tick list"
  ohlc_fault :: "string \<Rightarrow> string option"

record processor =
  p_db :: database
  p_running :: bool
  p_logged :: "log_entry list"
  p_slept :: "int list"

text \<open>The loop over the rows of the resampled frame.\<close>

fun save_rows ::
  "(string \<Rightarrow> string option) \<Rightarrow> string \<Rightarrow> string \<Rightarrow> bar list \<Rightarrow> database
     \<Rightarrow> database \<times> pyerror option" where
  "save_rows faults symbol timeframe [] d = (d, None)"
| "save_rows faults symbol timeframe (row # rows) d =
     (case insert_ohlc (faults (ohlc_id symbol timeframe (b_timestamp row))) d symbol
             (b_timestamp row) timeframe (b_open row) (b_high row) (b_low row) (b_close row)
             (b_volume row) of
        Inl e \<Rightarrow> (d, Some e)
      | Inr d' \<Rightarrow> save_rows faults symbol timeframe rows d')"

text \<open>The loop \<open>for symbol in symbols\<close>; an exception ends it.\<close>

fun process_symbols ::
  "cycle_env \<Rightarrow> string \<Rightarrow> string list \<Rightarrow> processor \<Rightarrow> processor \<times> pyerror option" where
  "process_symbols env timeframe [] st = (st, None)"
| "process_symbols env timeframe (symbol # rest) st =
     (case ticks_reply env symbol of
        Inl e \<Rightarrow> (st, Some e)
      | Inr tks \<Rightarrow>
          (if tks = [] then process_symbols env timeframe rest st
           else (case save_rows (ohlc_fault env) symbol timeframe
                        (resample_data tks timeframe) (p_db st) of
                   (d, Some e) \<Rightarrow> (st\<lparr>p_db := d\<rparr>, Some e)
                 | (d, None) \<Rightarrow>
                     process_symbols env timeframe rest
                       (st\<lparr>p_db := d,
                           p_logged := p_logged st
                             @ [(DEBUG, ''Processed '' @ timeframe @ '' bars for '' @ symbol)]\<rparr>))))"

definition wait_seconds :: "string \<Rightarrow> int" where
  "wait_seconds timeframe =
     (case map_of [(''1s'', 1), (''1m'', 60), (''5m'', 300)] timeframe of
        None \<Rightarrow> 60 | Some n \<Rightarrow> n)"

text \<open>The body of \<open>while self.running\<close>: the \<open>try\<close> with its \<open>except Exception\<close>.\<close>

definition process_cycle :: "cycle_env \<Rightarrow> string \<Rightarrow> processor \<Rightarrow> processor \<times> pyerror option" where
  "process_cycle env timeframe st =
     (case (case symbols_reply env of
              Inl e \<Rightarrow> (st, Some e)
            | Inr syms \<Rightarrow> process_symbols env timeframe syms st) of
        (st', None) \<Rightarrow> (st'\<lparr>p_slept := p_slept st' @ [wait_seconds timeframe]\<rparr>, None)
      | (st', Some e) \<Rightarrow>
          (if is_Exception e
           then (st'\<lparr>p_logged := p_logged st' @ [(ERROR, ''Error processing '' @ timeframe)],
                     p_slept := p_slept st' @ [5]\<rparr>, None)
           else (st', Some e)))"

text \<open>The loop, on the environments of finitely many cycles.\<close>

fun process_timeframe ::
  "string \<Rightarrow> cycle_env list \<Rightarrow> processor \<Rightarrow> processor \<times> pyerror option" where
  "process_timeframe timeframe [] st = (st, None)"
| "process_timeframe timeframe (env # envs) st =
     (if \<not> p_running st then (st, None)
      else (case process_cycle env timeframe st of
              (st', None) \<Rightarrow> process_timeframe timeframe envs st'
            | (st', Some e) \<Rightarrow> (st', Some e)))"

section \<open>Invariants and characterisations\<close>

text \<open>The invariant of the connection task of a symbol: the delay is a power of two capped
  at the maximum, and while the task sleeps its local \<open>delay\<close> is the symbol's delay.\<close>

definition backoff_inv :: "string \<Rightarrow> loc \<times> collector \<Rightarrow> bool" where
  "backoff_inv symbol s =
     ((\<exists>k::nat. reconnect_delays (snd s) symbol = Some (min (2 ^ k) MAX_RECONNECT_DELAY))
      \<and> (\<forall>dl. fst s = Sleeping dl \<longrightarrow> reconnect_delays (snd s) symbol = Some dl))"

text \<open>The invariant of all the connection tasks together: every symbol's delay, and the
  local \<open>delay\<close> of every sleeping task, is one of the values of the capped doubling.\<close>

definition delay_values :: "int set" where
  "delay_values = {1, 2, 4, 8, 16, 32, 60}"

definition tasks_inv :: "string list \<Rightarrow> loc list \<times> collector \<Rightarrow> bool" where
  "tasks_inv syms s =
     (symbols (snd s) = syms
      \<and> (\<forall>x \<in> set syms. \<exists>v \<in> delay_values. reconnect_delays (snd s) x = Some v)
      \<and> (\<forall>dl. Sleeping dl \<in> set (fst s) \<longrightarrow> dl \<in> delay_values))"

text \<open>Every stored bar lies under the id that its own symbol, timeframe and timestamp
  give.\<close>

definition keyed :: "database \<Rightarrow> bool" where
  "keyed d =
     (\<forall>k r. ohlc d k = Some r \<longrightarrow> k = ohlc_id (o_symbol r) (o_timeframe r) (o_timestamp r))"

text \<open>The width in microseconds of the bins that \<open>resample_data\<close> uses for a
  timeframe.\<close>

definition width_of :: "string \<Rightarrow> int" where
  "width_of timeframe = to_offset (case freq_map timeframe of None \<Rightarrow> ''1T'' | Some f \<Rightarrow> f)"


text \<open>What pandas' rolling deviation does on a constant series: where it is not NaN (the
  window is not full, or has a single cell) it is exactly 0, pandas counting the run
  of equal values rather than summing squares.\<close>

definition constant_std_zero :: "pandas \<Rightarrow> bool" where
  "constant_std_zero pd =
     (\<forall>c n w. \<forall>s \<in> set (rolling_std pd (replicate n (Some c)) w). s = None \<or> s = Some 0)"

section \<open>A runtime and inputs to evaluate examples with\<close>

text \<open>
  The theorems below hold for every runtime. To evaluate the model at a concrete input
  one runtime is fixed here: it reads plain decimal numerals (digits, or digits, a point
  and digits) as Python does and rejects every other string, prints a float that is
  a natural number as Python does (\<open>100.0\<close>), and takes the local time zone to be UTC.
\<close>

definition digit_of :: "char \<Rightarrow> nat option" where
  "digit_of c = (let n = (of_char c :: nat) in if 48 \<le> n \<and> n \<le> 57 then Some (n - 48) else None)"

fun digits_val :: "string \<Rightarrow> nat \<Rightarrow> nat option" where
  "digits_val [] acc = Some acc"
| "digits_val (c # cs) acc =
     (case digit_of c of None \<Rightarrow> None | Some d \<Rightarrow> digits_val cs (10 * acc + d))"

definition sample_float_of_str :: "string \<Rightarrow> real option" where
  "sample_float_of_str s =
     (let a = takeWhile (\<lambda>c. c \<noteq> CHR ''.'') s; b = drop (length a + 1) s
      in if a = [] then None
         else (case digits_val a 0 of
                 None \<Rightarrow> None
               | Some n \<Rightarrow>
                   (if length a = length s then Some (real n)
                    else if b = [] then None
                    else (case digits_val b 0 of
                            None \<Rightarrow> None
                          | Some m \<Rightarrow> Some (real n + real m / 10 ^ length b)))))"

fun decimal :: "nat \<Rightarrow> string" where
  "decimal n = (if n < 10 then [digit_char (int n)] else decimal (n div 10) @ [digit_char (int (n mod 10))])"

definition sample_str_of_float :: "real \<Rightarrow> string" where
  "sample_str_of_float r = decimal (nat \<lfloor>r\<rfloor>) @ ''.0''"

definition sample_runtime :: runtime where
  "sample_runtime =
     \<lparr>float_of_str = sample_float_of_str, str_of_float = sample_str_of_float,
      fromtimestamp = (\<lambda>x. Some \<lfloor>x * 1000000\<rfloor>)\<rparr>"

definition sample_tick :: tick where
  "sample_tick = \<lparr>t_symbol = ''btcusdt'', t_timestamp = 0, t_price = 100, t_size = 1\<rparr>"

definition sample_collector :: collector where
  "sample_collector =
     \<lparr>symbols = [''btcusdt''], db = empty_db, running = True, buffer = [],
      reconnect_delays = [''btcusdt'' \<mapsto> 1], logged = []\<rparr>"

text \<open>A trade message with a price that is not a number, and one with no price.\<close>

definition malformed_trade :: "(string \<times> json) list" where
  "malformed_trade =
     [(''e'', JStr ''trade''), (''s'', JStr ''BTCUSDT''), (''T'', JInt 1700000000000),
      (''p'', JStr ''abc''), (''q'', JStr ''0.25'')]"

definition priceless_trade :: "(string \<times> json) list" where
  "priceless_trade =
     [(''e'', JStr ''trade''), (''s'', JStr ''BTCUSDT''), (''T'', JInt 1700000000000),
      (''q'', JStr ''0.25'')]"

definition sample_row :: ohlc_row where
  "sample_row =
     \<lparr>o_symbol = ''btcusdt'', o_timestamp = 0, o_timeframe = ''1s'',
      o_open = 100, o_high = 100, o_low = 100, o_close = 100, o_volume = 1\<rparr>"

definition sample_db :: database where
  "sample_db = empty_db\<lparr>ohlc := [''btcusdt_1s_1970-01-01T00:00:00'' \<mapsto> sample_row]\<rparr>"

text \<open>An \<open>adfuller\<close> that returns a tuple, and one that raises as statsmodels does on a
  constant series.\<close>

definition adfuller_returning :: "real list \<Rightarrow> nat option \<Rightarrow> string + adf_tuple" where
  "adfuller_returning xs maxlag =
     Inr \<lparr>adf_stat = - 4, adf_pvalue = 0.01, adf_usedlag = 1, adf_nobs = length xs - 2,
          adf_crit = [(''1%'', - 3.5), (''5%'', - 2.9), (''10%'', - 2.6)]\<rparr>"

definition adfuller_raising :: "real list \<Rightarrow> nat option \<Rightarrow> string + adf_tuple" where
  "adfuller_raising xs maxlag = Inl ''Invalid input, x is constant''"


text \<open>A cycle with two symbols in which the read of the first symbol's ticks raises.\<close>

definition sample_env :: cycle_env where
  "sample_env =
     \<lparr>symbols_reply = Inr [''adausdt'', ''btcusdt''],
      ticks_reply = (\<lambda>s. if s = ''adausdt'' then Inl (OperationalError ''database is locked'')
                          else Inr [sample_tick]),
      ohlc_fault = (\<lambda>k. None)\<rparr>"

definition sample_processor :: processor where
  "sample_processor = \<lparr>p_db = empty_db, p_running = True, p_logged = [], p_slept = []\<rparr>"

text \<open>A pandas whose rolling mean and deviation return the given series: what pandas
  returns on the one series and window of an example.\<close>

definition pandas_returning :: "real option list \<Rightarrow> real option list \<Rightarrow> pandas" where
  "pandas_returning means stds =
     \<lparr>rolling_mean = (\<lambda>series w. means), rolling_std = (\<lambda>series w. stds)\<rparr>"

text \<open>A frame of one tick whose price is NaN, and a frame of three ticks, one per
  second, the first without a price and the second without a size.\<close>

definition nan_frame :: "frame_row list" where
  "nan_frame = [\<lparr>f_timestamp = 0, f_price = None, f_size = Some 1\<rparr>]"

definition gappy_frame :: "frame_row list" where
  "gappy_frame =
     [\<lparr>f_timestamp = 0, f_price = None, f_size = Some 1\<rparr>,
      \<lparr>f_timestamp = 1000000, f_price = Some 101, f_size = None\<rparr>,
      \<lparr>f_timestamp = 2000000, f_price = Some 99, f_size = Some 1\<rparr>]"

section \<open>Properties of the collector\<close>

subsection \<open>Evaluation of the examples' strings\<close>

lemma lower_BTCUSDT: "lower ''BTCUSDT'' = ''btcusdt''"
  by code_simp

lemma strip_BTCUSDT: "strip ''BTCUSDT'' = ''BTCUSDT''"
  by code_simp

lemma strip_btcusdt: "strip ''btcusdt'' = ''btcusdt''"
  by code_simp

lemma sample_float_abc: "sample_float_of_str ''abc'' = None"
  by (simp add: sample_float_of_str_def digit_of_def)

lemma sample_float_quarter: "sample_float_of_str ''0.25'' = Some 0.25"
  by (simp add: sample_float_of_str_def digit_of_def)

subsection \<open>The normalizer\<close>

lemma insert_ticks_batch_returns: "\<exists>d. insert_ticks_batch rt fault database batch = Inr d"
  by (simp add: insert_ticks_batch_def split: option.splits)

lemma py_float_default: "py_float rt (JInt 0) = Inr 0"
  by (simp add: py_float_def float_limit_def)

lemma handle_trade_try_errors:
  "handle_trade_try rt now symbol message st = Inl e \<Longrightarrow> is_Exception e"
  by (auto simp: handle_trade_try_def normalize_trade_def Let_def is_Exception_def div_1000_def
      str_lower_def py_float_def
      split: raw.splits json.splits if_splits sum.splits option.splits)

lemma handle_trade_returns: "\<exists>st'. handle_trade rt now symbol message st = Inr st'"
  using handle_trade_try_errors[of rt now symbol message st]
  by (auto simp: handle_trade_def split: sum.splits)

lemma handle_trade_delays:
  "handle_trade rt now symbol message st = Inr st' \<Longrightarrow> reconnect_delays st' = reconnect_delays st"
  by (auto simp: handle_trade_def handle_trade_try_def
      split: sum.splits if_splits raw.splits json.splits)

lemma normalize_trade_price:
  "normalize_trade rt now kvs = Inr t \<Longrightarrow>
   py_float rt (dict_get kvs ''p'' (JInt 0)) = Inr (t_price t)"
  by (auto simp: normalize_trade_def Let_def split: sum.splits if_splits)

lemma normalize_trade_size:
  "normalize_trade rt now kvs = Inr t \<Longrightarrow>
   py_float rt (dict_get kvs ''q'' (JInt 0)) = Inr (t_size t)"
  by (auto simp: normalize_trade_def Let_def split: sum.splits if_splits)

lemma normalize_trade_errors:
  "normalize_trade rt now kvs = Inl e \<Longrightarrow> e \<noteq> JSONDecodeError \<and> is_Exception e"
  by (auto simp: normalize_trade_def Let_def is_Exception_def div_1000_def
      str_lower_def py_float_def
      split: json.splits if_splits sum.splits option.splits)

lemma handle_trade_dropped:
  assumes "dict_get kvs ''e'' JNull = JStr ''trade''" "normalize_trade rt now kvs = Inl e"
  shows "handle_trade rt now symbol (Decoded (JObj kvs)) st =
          Inr (st\<lparr>logged := logged st @ [(ERROR, ''Error handling trade for '' @ symbol)]\<rparr>)"
  using assms normalize_trade_errors[OF assms(2)]
  by (simp add: handle_trade_def handle_trade_try_def)

lemma handle_trade_appended:
  assumes "dict_get kvs ''e'' JNull = JStr ''trade''" "normalize_trade rt now kvs = Inr t"
  shows "handle_trade rt now symbol (Decoded (JObj kvs)) st =
          Inr (st\<lparr>buffer := buffer st @ [t],
                  logged := logged st @ [(DEBUG, ''Received trade for '' @ symbol)]\<rparr>)"
  using assms by (simp add: handle_trade_def handle_trade_try_def)

text \<open>
  C3, as the code has it. For every decoded trade message (a dict whose \<open>e\<close> is
  \<open>trade\<close>) \<open>handle_trade\<close> returns; no exception leaves it. When \<open>normalize\<close> returns a
  tick, the tick is appended to the buffer, and a price or quantity field that is
  missing from the message is \<open>0.0\<close> in it (a missing field never makes \<open>float\<close> raise).
  When \<open>normalize\<close> raises, which it does whenever \<open>float\<close> rejects the price or the
  quantity that the message carries, the message is dropped: the buffer is unchanged
  and an error is logged.
\<close>

theorem handle_trade_missing_defaults_malformed_dropped:
  "dict_get kvs ''e'' JNull = JStr ''trade'' \<longrightarrow>
   (\<exists>st'. handle_trade rt now symbol (Decoded (JObj kvs)) st = Inr st' \<and>
     (case normalize_trade rt now kvs of
        Inr t \<Rightarrow> buffer st' = buffer st @ [t]
              \<and> (map_of kvs ''p'' = None \<longrightarrow> t_price t = 0)
              \<and> (map_of kvs ''q'' = None \<longrightarrow> t_size t = 0)
      | Inl e \<Rightarrow> buffer st' = buffer st
              \<and> logged st' = logged st @ [(ERROR, ''Error handling trade for '' @ symbol)]))
   \<and> (map_of kvs ''p'' = None \<longrightarrow> py_float rt (dict_get kvs ''p'' (JInt 0)) = Inr 0)
   \<and> (map_of kvs ''q'' = None \<longrightarrow> py_float rt (dict_get kvs ''q'' (JInt 0)) = Inr 0)
   \<and> ((\<exists>e. py_float rt (dict_get kvs ''p'' (JInt 0)) = Inl e)
        \<longrightarrow> (\<exists>e. normalize_trade rt now kvs = Inl e))
   \<and> ((\<exists>e. py_float rt (dict_get kvs ''q'' (JInt 0)) = Inl e)
        \<longrightarrow> (\<exists>e. normalize_trade rt now kvs = Inl e))"
proof (intro impI conjI)
  assume tr: "dict_get kvs ''e'' JNull = JStr ''trade''"
  show "\<exists>st'. handle_trade rt now symbol (Decoded (JObj kvs)) st = Inr st' \<and>
     (case normalize_trade rt now kvs of
        Inr t \<Rightarrow> buffer st' = buffer st @ [t]
              \<and> (map_of kvs ''p'' = None \<longrightarrow> t_price t = 0)
              \<and> (map_of kvs ''q'' = None \<longrightarrow> t_size t = 0)
      | Inl e \<Rightarrow> buffer st' = buffer st
              \<and> logged st' = logged st @ [(ERROR, ''Error handling trade for '' @ symbol)])"
  proof (cases "normalize_trade rt now kvs")
    case (Inl e)
    then show ?thesis using handle_trade_dropped[OF tr Inl] by simp
  next
    case (Inr t)
    have "map_of kvs ''p'' = None \<Longrightarrow> t_price t = 0"
      using normalize_trade_price[OF Inr] by (simp add: dict_get_def py_float_default)
    moreover have "map_of kvs ''q'' = None \<Longrightarrow> t_size t = 0"
      using normalize_trade_size[OF Inr] by (simp add: dict_get_def py_float_default)
    ultimately show ?thesis using handle_trade_appended[OF tr Inr] Inr by simp
  qed
next
  assume "map_of kvs ''p'' = None"
  then show "py_float rt (dict_get kvs ''p'' (JInt 0)) = Inr 0"
    by (simp add: dict_get_def py_float_default)
next
  assume "map_of kvs ''q'' = None"
  then show "py_float rt (dict_get kvs ''q'' (JInt 0)) = Inr 0"
    by (simp add: dict_get_def py_float_default)
next
  assume "\<exists>e. py_float rt (dict_get kvs ''p'' (JInt 0)) = Inl e"
  then show "\<exists>e. normalize_trade rt now kvs = Inl e"
    using normalize_trade_price[of rt now kvs] by (cases "normalize_trade rt now kvs") auto
next
  assume "\<exists>e. py_float rt (dict_get kvs ''q'' (JInt 0)) = Inl e"
  then show "\<exists>e. normalize_trade rt now kvs = Inl e"
    using normalize_trade_size[of rt now kvs] by (cases "normalize_trade rt now kvs") auto
qed

text \<open>The theorem at a trade message without a price: the tick is buffered with price
  \<open>0.0\<close>.\<close>

theorem handle_trade_missing_defaults_witness:
  "dict_get priceless_trade ''e'' JNull = JStr ''trade''
   \<and> map_of priceless_trade ''p'' = None
   \<and> (\<exists>st'. handle_trade sample_runtime 0 ''btcusdt'' (Decoded (JObj priceless_trade))
               sample_collector = Inr st'
          \<and> buffer st' = [\<lparr>t_symbol = ''btcusdt'', t_timestamp = 1700000000000000,
                             t_price = 0, t_size = 0.25\<rparr>])"
  using handle_trade_missing_defaults_malformed_dropped
    [of priceless_trade sample_runtime 0 "''btcusdt''" sample_collector]
  by (simp add: priceless_trade_def handle_trade_def handle_trade_try_def normalize_trade_def
      dict_get_def py_or_def truthy_def div_1000_def float_limit_def sample_runtime_def
      str_lower_def py_float_def sample_float_quarter lower_BTCUSDT sample_collector_def)

text \<open>
  C3 as stated fails: the price \<open>"abc"\<close> is malformed (\<open>float\<close> raises ValueError),
  and the message is dropped with an error logged, not buffered with price \<open>0.0\<close>.
\<close>

theorem handle_trade_malformed_price_counterexample:
  "py_float sample_runtime (JStr ''abc'') = Inl ValueError
   \<and> dict_get malformed_trade ''p'' (JInt 0) = JStr ''abc''
   \<and> dict_get malformed_trade ''e'' JNull = JStr ''trade''
   \<and> buffer sample_collector = []
   \<and> handle_trade sample_runtime 0 ''btcusdt'' (Decoded (JObj malformed_trade)) sample_collector
       = Inr (sample_collector\<lparr>logged := [(ERROR, ''Error handling trade for btcusdt'')]\<rparr>)"
  by (simp add: malformed_trade_def handle_trade_def handle_trade_try_def normalize_trade_def
      dict_get_def py_or_def truthy_def div_1000_def float_limit_def sample_runtime_def
      str_lower_def py_float_def sample_float_abc is_Exception_def sample_collector_def)

subsection \<open>The reconnect delay\<close>

lemma doubled_capped:
  "min (min (2 ^ k) MAX_RECONNECT_DELAY * 2) MAX_RECONNECT_DELAY
     = min (2 ^ Suc k) MAX_RECONNECT_DELAY"
  by (simp add: MAX_RECONNECT_DELAY_def min_def)

lemma loop_head_delays: "reconnect_delays (snd (loop_head symbol st)) = reconnect_delays st"
  by (simp add: loop_head_def)

lemma loop_head_loc: "fst (loop_head symbol st) \<noteq> Sleeping dl"
  by (simp add: loop_head_def)

lemma after_try_delays: "reconnect_delays (snd (after_try symbol st)) = reconnect_delays st"
  by (simp add: after_try_def loop_head_def split: option.splits)

lemma after_try_loc:
  "fst (after_try symbol st) = Sleeping dl \<Longrightarrow> reconnect_delays st symbol = Some dl"
  by (auto simp: after_try_def loop_head_def split: option.splits if_splits)

lemma except_clause_delays:
  "reconnect_delays (snd (except_clause symbol x st)) = reconnect_delays st"
  by (simp add: except_clause_def after_try_delays split: conn_exn.splits)

lemma except_clause_loc:
  "fst (except_clause symbol x st) = Sleeping dl \<Longrightarrow> reconnect_delays st symbol = Some dl"
  by (auto simp: except_clause_def dest: after_try_loc split: conn_exn.splits)

lemma inv_after_try:
  "\<exists>k::nat. reconnect_delays st symbol = Some (min (2 ^ k) MAX_RECONNECT_DELAY)
    \<Longrightarrow> backoff_inv symbol (after_try symbol st)"
  unfolding backoff_inv_def using after_try_loc[of symbol st] by (simp add: after_try_delays)

lemma inv_except_clause:
  "\<exists>k::nat. reconnect_delays st symbol = Some (min (2 ^ k) MAX_RECONNECT_DELAY)
    \<Longrightarrow> backoff_inv symbol (except_clause symbol x st)"
  unfolding backoff_inv_def using except_clause_loc[of symbol x st]
  by (simp add: except_clause_delays)

lemma inv_loop_head:
  "\<exists>k::nat. reconnect_delays st symbol = Some (min (2 ^ k) MAX_RECONNECT_DELAY)
    \<Longrightarrow> backoff_inv symbol (loop_head symbol st)"
  unfolding backoff_inv_def using loop_head_loc[of symbol st] by (simp add: loop_head_delays)

text \<open>Every event keeps the invariant: one case per event, and for the events that
  depend on the control point one case per control point.\<close>

lemma step_inv:
  assumes "backoff_inv symbol s"
  shows "backoff_inv symbol (step rt symbol ev s)"
proof -
  obtain l st where s: "s = (l, st)" by (cases s)
  from assms s obtain k :: nat where
    k: "reconnect_delays st symbol = Some (min (2 ^ k) MAX_RECONNECT_DELAY)"
    and sl: "\<And>dl. l = Sleeping dl \<Longrightarrow> reconnect_delays st symbol = Some dl"
    by (auto simp: backoff_inv_def)
  have ex: "\<exists>k::nat. reconnect_delays st symbol = Some (min (2 ^ k) MAX_RECONNECT_DELAY)"
    using k by blast
  show ?thesis
  proof (cases ev)
    case Signal
    then show ?thesis using k sl s by (auto simp: backoff_inv_def signal_handler_def)
  next
    case ConnectOk
    have "(1::int) = min (2 ^ 0) MAX_RECONNECT_DELAY" by (simp add: MAX_RECONNECT_DELAY_def)
    then have "\<exists>k::nat. (1::int) = min (2 ^ k) MAX_RECONNECT_DELAY" by blast
    then show ?thesis using ConnectOk k sl s
      by (cases l) (auto simp: backoff_inv_def INITIAL_RECONNECT_DELAY_def)
  next
    case (ConnectRaises x)
    then show ?thesis using s assms inv_except_clause[OF ex] by (cases l) auto
  next
    case (Message m now)
    show ?thesis
    proof (cases l)
      case Receiving
      show ?thesis
      proof (cases "running st")
        case False
        then show ?thesis using Message Receiving s inv_after_try[OF ex] by simp
      next
        case True
        obtain st' where h: "handle_trade rt now symbol m st = Inr st'"
          using handle_trade_returns by blast
        then show ?thesis using True Message Receiving s k handle_trade_delays[OF h]
          by (auto simp: backoff_inv_def)
      qed
    qed (use Message s assms in auto)
  next
    case (ReceiveRaises x)
    then show ?thesis using s assms inv_except_clause[OF ex] by (cases l) auto
  next
    case StreamEnd
    then show ?thesis using s assms inv_after_try[OF ex] by (cases l) auto
  next
    case SleepOver
    show ?thesis
    proof (cases l)
      case (Sleeping dl)
      then have dl: "dl = min (2 ^ k) MAX_RECONNECT_DELAY" using sl k by simp
      let ?st = "st\<lparr>reconnect_delays :=
            (reconnect_delays st)(symbol \<mapsto> min (dl * 2) MAX_RECONNECT_DELAY)\<rparr>"
      have "reconnect_delays ?st symbol = Some (min (2 ^ Suc k) MAX_RECONNECT_DELAY)"
        using dl doubled_capped[of k] by simp
      then have "\<exists>k::nat. reconnect_delays ?st symbol = Some (min (2 ^ k) MAX_RECONNECT_DELAY)"
        by blast
      from inv_loop_head[OF this] show ?thesis using SleepOver Sleeping s by simp
    qed (use SleepOver s assms in auto)
  qed
qed

lemma connect_symbol_inv:
  assumes "\<exists>k::nat. reconnect_delays st symbol = Some (min (2 ^ k) MAX_RECONNECT_DELAY)"
  shows "backoff_inv symbol (connect_symbol rt symbol evs st)"
proof -
  have "backoff_inv symbol s \<Longrightarrow> backoff_inv symbol (foldl (\<lambda>s ev. step rt symbol ev s) s evs)"
    for s
  proof (induction evs arbitrary: s)
    case Nil
    then show ?case by simp
  next
    case (Cons ev evs)
    from Cons.prems have "backoff_inv symbol (step rt symbol ev s)" by (rule step_inv)
    from Cons.IH[OF this] show ?case by simp
  qed
  then show ?thesis unfolding connect_symbol_def using inv_loop_head[OF assms] by blast
qed

lemma map_of_const: "x \<in> set xs \<Longrightarrow> map_of (map (\<lambda>s. (s, v)) xs) x = Some v"
  by (induction xs) auto

lemma init_collector_delays:
  assumes "init_collector syms d = Inr c" "symbol \<in> set (symbols c)"
  shows "reconnect_delays c symbol = Some INITIAL_RECONNECT_DELAY"
proof -
  let ?ss = "map (\<lambda>s. strip (lower s)) (filter (\<lambda>s. strip s \<noteq> []) syms)"
  from assms(1) have c: "symbols c = ?ss"
    "reconnect_delays c = map_of (map (\<lambda>s. (s, INITIAL_RECONNECT_DELAY)) ?ss)"
    by (auto simp: init_collector_def Let_def split: if_splits)
  from c(1) assms(2) have "symbol \<in> set ?ss" by simp
  from map_of_const[OF this] show ?thesis unfolding c(2) .
qed

lemma capped_power_values:
  "min (2 ^ k) MAX_RECONNECT_DELAY \<in> {1, 2, 4, 8, 16, 32, 60 :: int}"
proof (cases "k < 6")
  case True
  then have "k \<in> {0, 1, 2, 3, 4, 5}" by auto
  then show ?thesis by (auto simp: MAX_RECONNECT_DELAY_def)
next
  case False
  then have "(2::int) ^ 6 \<le> 2 ^ k" by (intro power_increasing) auto
  then show ?thesis by (simp add: MAX_RECONNECT_DELAY_def min_def)
qed

text \<open>The same for the tasks of all symbols on the shared collector.\<close>

lemma delay_values_doubled: "dl \<in> delay_values \<Longrightarrow> min (dl * 2) MAX_RECONNECT_DELAY \<in> delay_values"
  by (auto simp: delay_values_def MAX_RECONNECT_DELAY_def)

lemma loop_head_effect:
  "loop_head symbol st = (l', st') \<Longrightarrow>
     symbols st' = symbols st \<and> reconnect_delays st' = reconnect_delays st \<and> (\<forall>dl. l' \<noteq> Sleeping dl)"
  by (auto simp: loop_head_def split: if_splits)

lemma after_try_effect:
  "after_try symbol st = (l', st') \<Longrightarrow>
     symbols st' = symbols st \<and> reconnect_delays st' = reconnect_delays st
     \<and> (\<forall>dl. l' = Sleeping dl \<longrightarrow> reconnect_delays st symbol = Some dl)"
  by (auto simp: after_try_def loop_head_def split: if_splits option.splits)

lemma except_clause_effect:
  "except_clause symbol x st = (l', st') \<Longrightarrow>
     symbols st' = symbols st \<and> reconnect_delays st' = reconnect_delays st
     \<and> (\<forall>dl. l' = Sleeping dl \<longrightarrow> reconnect_delays st symbol = Some dl)"
  by (cases x) (auto simp: except_clause_def dest!: after_try_effect)

lemma handle_trade_effect:
  "handle_trade rt now symbol message st = Inr st' \<Longrightarrow>
     symbols st' = symbols st \<and> reconnect_delays st' = reconnect_delays st"
  by (auto simp: handle_trade_def handle_trade_try_def
      split: sum.splits if_splits raw.splits json.splits)

lemma step_effect:
  assumes "step rt symbol ev (l, st) = (l', st')"
  shows "symbols st' = symbols st
     \<and> (\<forall>x. x \<noteq> symbol \<longrightarrow> reconnect_delays st' x = reconnect_delays st x)
     \<and> (reconnect_delays st' symbol = reconnect_delays st symbol
        \<or> reconnect_delays st' symbol = Some 1
        \<or> (\<exists>dl. l = Sleeping dl \<and> reconnect_delays st' symbol = Some (min (dl * 2) MAX_RECONNECT_DELAY)))
     \<and> (\<forall>dl. l' = Sleeping dl \<longrightarrow> l = Sleeping dl \<or> reconnect_delays st symbol = Some dl)"
proof (cases ev)
  case Signal
  then show ?thesis using assms by (auto simp: signal_handler_def)
next
  case ConnectOk
  then show ?thesis using assms by (cases l) (auto simp: INITIAL_RECONNECT_DELAY_def)
next
  case (ConnectRaises x)
  then show ?thesis using assms by (cases l) (auto dest!: except_clause_effect)
next
  case (Message m now)
  show ?thesis
  proof (cases l)
    case Receiving
    show ?thesis
    proof (cases "running st")
      case False
      then show ?thesis using assms Message Receiving by (auto dest!: after_try_effect)
    next
      case True
      then show ?thesis using assms Message Receiving
        by (auto split: sum.splits if_splits dest!: handle_trade_effect except_clause_effect)
    qed
  qed (use assms Message in auto)
next
  case (ReceiveRaises x)
  then show ?thesis using assms by (cases l) (auto dest!: except_clause_effect)
next
  case StreamEnd
  then show ?thesis using assms by (cases l) (auto dest!: after_try_effect)
next
  case SleepOver
  then show ?thesis using assms by (cases l) (auto dest!: loop_head_effect)
qed

lemma task_step_inv:
  assumes "tasks_inv syms s"
  shows "tasks_inv syms (task_step rt te s)"
proof (cases "fst te < length (fst s) \<and> fst te < length (symbols (snd s))")
  case False
  then have "task_step rt te s = s" unfolding task_step_def by (rule if_not_P)
  then show ?thesis using assms by simp
next
  case True
  obtain ls st where s: "s = (ls, st)" by (cases s)
  obtain i ev where te: "te = (i, ev)" by (cases te)
  from True s te have i: "i < length ls" "i < length (symbols st)" by auto
  let ?sym = "symbols st ! i"
  obtain l' st' where st: "step rt ?sym ev (ls ! i, st) = (l', st')"
    by (cases "step rt ?sym ev (ls ! i, st)")
  from assms s have sy: "symbols st = syms"
    and v: "\<And>x. x \<in> set syms \<Longrightarrow> \<exists>v \<in> delay_values. reconnect_delays st x = Some v"
    and sl: "\<And>dl. Sleeping dl \<in> set ls \<Longrightarrow> dl \<in> delay_values"
    by (auto simp: tasks_inv_def)
  have mem: "?sym \<in> set syms" using i sy by auto
  have li: "ls ! i \<in> set ls" using i by simp
  note e = step_effect[OF st]
  have r: "task_step rt te s = (ls[i := l'], st')" using True s te st by (simp add: task_step_def)
  have 1: "symbols st' = syms" using e sy by simp
  have 2: "\<exists>v \<in> delay_values. reconnect_delays st' x = Some v" if x: "x \<in> set syms" for x
  proof (cases "x = ?sym")
    case False
    then show ?thesis using e v[OF x] by simp
  next
    case True
    from e consider "reconnect_delays st' ?sym = reconnect_delays st ?sym"
      | "reconnect_delays st' ?sym = Some 1"
      | dl where "ls ! i = Sleeping dl" "reconnect_delays st' ?sym = Some (min (dl * 2) MAX_RECONNECT_DELAY)"
      by blast
    then show ?thesis
    proof cases
      case 1
      then show ?thesis using v[OF mem] True by simp
    next
      case 2
      then show ?thesis using True by (simp add: delay_values_def)
    next
      case 3
      then have "dl \<in> delay_values" using sl li by metis
      then show ?thesis using 3 True delay_values_doubled by simp
    qed
  qed
  have 3: "dl \<in> delay_values" if d: "Sleeping dl \<in> set (ls[i := l'])" for dl
  proof -
    from d have "Sleeping dl \<in> set ls \<or> l' = Sleeping dl"
      using set_update_subset_insert[of ls i l'] by auto
    then show ?thesis
    proof
      assume "Sleeping dl \<in> set ls" then show ?thesis by (rule sl)
    next
      assume l': "l' = Sleeping dl"
      with e have "ls ! i = Sleeping dl \<or> reconnect_delays st ?sym = Some dl" by blast
      then show ?thesis using sl li v[OF mem] by (metis option.inject)
    qed
  qed
  show ?thesis unfolding r tasks_inv_def using 1 2 3 by simp
qed

lemma start_tasks_inv:
  assumes "\<forall>x \<in> set (symbols st). \<exists>v \<in> delay_values. reconnect_delays st x = Some v"
  shows "tasks_inv (symbols st) (start_tasks st)"
proof -
  have "tasks_inv syms s \<Longrightarrow>
        tasks_inv syms (foldl (\<lambda>s symbol. case loop_head symbol (snd s) of (l, st') \<Rightarrow> (fst s @ [l], st')) s xs)"
    for syms s xs
  proof (induction xs arbitrary: s)
    case Nil
    then show ?case by simp
  next
    case (Cons x xs)
    obtain l st' where h: "loop_head x (snd s) = (l, st')" by (cases "loop_head x (snd s)")
    from loop_head_effect[OF h] Cons.prems have "tasks_inv syms (fst s @ [l], st')"
      by (auto simp: tasks_inv_def)
    from Cons.IH[OF this] show ?case using h by simp
  qed
  moreover have "tasks_inv (symbols st) ([], st)" using assms by (simp add: tasks_inv_def)
  ultimately show ?thesis unfolding start_tasks_def by blast
qed

lemma connect_all_inv:
  assumes "\<forall>x \<in> set (symbols st). \<exists>v \<in> delay_values. reconnect_delays st x = Some v"
  shows "tasks_inv (symbols st) (connect_all rt tevs st)"
proof -
  have "tasks_inv syms s \<Longrightarrow> tasks_inv syms (foldl (\<lambda>s te. task_step rt te s) s tevs)" for syms s
  proof (induction tevs arbitrary: s)
    case Nil
    then show ?case by simp
  next
    case (Cons te tevs)
    from Cons.prems have "tasks_inv syms (task_step rt te s)" by (rule task_step_inv)
    from Cons.IH[OF this] show ?case by simp
  qed
  then show ?thesis unfolding connect_all_def using start_tasks_inv[OF assms] by blast
qed

text \<open>
  C4. A collector is built by \<open>__init__\<close> and \<open>symbol\<close> is one of its symbols. Its delay
  starts at 1. After any sequence of events of the symbol's connection task the delay
  is \<open>min (2 ^ k) 60\<close> for some \<open>k\<close>, that is one of 1, 2, 4, 8, 16, 32, 60; while the task
  sleeps, it sleeps for the current delay, and when the sleep is over the delay becomes
  \<open>min (2 * delay) 60\<close>, which is at most 60; and when a connection is established the
  delay becomes 1. When the tasks of all the symbols run together, in any
  interleaving, the delay of the symbol and the delay that any sleeping task waits for
  are among the same values.
\<close>

theorem reconnect_delay_doubles_capped_resets:
  assumes "init_collector syms d = Inr c" and "symbol \<in> set (symbols c)"
  shows "reconnect_delays c symbol = Some INITIAL_RECONNECT_DELAY \<and>
    (case connect_symbol rt symbol evs (c\<lparr>running := True\<rparr>) of (l, st) \<Rightarrow>
       (\<exists>k::nat. reconnect_delays st symbol = Some (min (2 ^ k) MAX_RECONNECT_DELAY))
     \<and> (\<exists>v \<in> {1, 2, 4, 8, 16, 32, 60}. reconnect_delays st symbol = Some v)
     \<and> (\<forall>dl. l = Sleeping dl \<longrightarrow>
           reconnect_delays st symbol = Some dl
         \<and> reconnect_delays (snd (step rt symbol SleepOver (l, st))) symbol
             = Some (min (dl * 2) MAX_RECONNECT_DELAY)
         \<and> min (dl * 2) MAX_RECONNECT_DELAY \<le> 60)
     \<and> (l = Connecting \<longrightarrow>
           reconnect_delays (snd (step rt symbol ConnectOk (l, st))) symbol
             = Some INITIAL_RECONNECT_DELAY \<and> INITIAL_RECONNECT_DELAY = 1))
    \<and> (case connect_all rt tevs (c\<lparr>running := True\<rparr>) of (ls, st) \<Rightarrow>
         (\<exists>v \<in> {1, 2, 4, 8, 16, 32, 60}. reconnect_delays st symbol = Some v)
       \<and> (\<forall>dl. Sleeping dl \<in> set ls \<longrightarrow> dl \<in> {1, 2, 4, 8, 16, 32, 60}))"
proof -
  have i: "reconnect_delays c symbol = Some INITIAL_RECONNECT_DELAY"
    by (rule init_collector_delays[OF assms])
  have "reconnect_delays (c\<lparr>running := True\<rparr>) symbol = Some (min (2 ^ 0) MAX_RECONNECT_DELAY)"
    using i by (simp add: MAX_RECONNECT_DELAY_def INITIAL_RECONNECT_DELAY_def)
  then have "\<exists>k::nat. reconnect_delays (c\<lparr>running := True\<rparr>) symbol
                = Some (min (2 ^ k) MAX_RECONNECT_DELAY)"
    by blast
  from connect_symbol_inv[OF this, of rt evs]
  have inv: "backoff_inv symbol (connect_symbol rt symbol evs (c\<lparr>running := True\<rparr>))" .
  obtain l st where r: "connect_symbol rt symbol evs (c\<lparr>running := True\<rparr>) = (l, st)"
    by (cases "connect_symbol rt symbol evs (c\<lparr>running := True\<rparr>)")
  from inv r obtain k :: nat where
    k: "reconnect_delays st symbol = Some (min (2 ^ k) MAX_RECONNECT_DELAY)"
    and sl: "\<And>dl. l = Sleeping dl \<Longrightarrow> reconnect_delays st symbol = Some dl"
    by (auto simp: backoff_inv_def)
  have v: "\<exists>v \<in> {1, 2, 4, 8, 16, 32, 60}. reconnect_delays st symbol = Some v"
    using k capped_power_values[of k] by blast
  have s1: "reconnect_delays (snd (step rt symbol SleepOver (Sleeping dl, st))) symbol
             = Some (min (dl * 2) MAX_RECONNECT_DELAY)" for dl
    by (simp add: loop_head_delays)
  have s2: "min (dl * 2) MAX_RECONNECT_DELAY \<le> 60" for dl
    by (simp add: MAX_RECONNECT_DELAY_def)
  have s3: "reconnect_delays (snd (step rt symbol ConnectOk (Connecting, st))) symbol
             = Some INITIAL_RECONNECT_DELAY"
    by simp
  have single: "case connect_symbol rt symbol evs (c\<lparr>running := True\<rparr>) of (l, st) \<Rightarrow>
       (\<exists>k::nat. reconnect_delays st symbol = Some (min (2 ^ k) MAX_RECONNECT_DELAY))
     \<and> (\<exists>v \<in> {1, 2, 4, 8, 16, 32, 60}. reconnect_delays st symbol = Some v)
     \<and> (\<forall>dl. l = Sleeping dl \<longrightarrow>
           reconnect_delays st symbol = Some dl
         \<and> reconnect_delays (snd (step rt symbol SleepOver (l, st))) symbol
             = Some (min (dl * 2) MAX_RECONNECT_DELAY)
         \<and> min (dl * 2) MAX_RECONNECT_DELAY \<le> 60)
     \<and> (l = Connecting \<longrightarrow>
           reconnect_delays (snd (step rt symbol ConnectOk (l, st))) symbol
             = Some INITIAL_RECONNECT_DELAY \<and> INITIAL_RECONNECT_DELAY = 1)"
    using r k v sl s1 s2 s3 by (auto simp: INITIAL_RECONNECT_DELAY_def)
  have "\<forall>x \<in> set (symbols (c\<lparr>running := True\<rparr>)).
          \<exists>v \<in> delay_values. reconnect_delays (c\<lparr>running := True\<rparr>) x = Some v"
    using init_collector_delays[OF assms(1)]
    by (simp add: delay_values_def INITIAL_RECONNECT_DELAY_def)
  from connect_all_inv[OF this, of rt tevs]
  have ti: "tasks_inv (symbols c) (connect_all rt tevs (c\<lparr>running := True\<rparr>))" by simp
  obtain ls st2 where r2: "connect_all rt tevs (c\<lparr>running := True\<rparr>) = (ls, st2)"
    by (cases "connect_all rt tevs (c\<lparr>running := True\<rparr>)")
  from ti r2 assms(2) have
    "\<exists>v \<in> {1, 2, 4, 8, 16, 32, 60}. reconnect_delays st2 symbol = Some v"
    and "\<forall>dl. Sleeping dl \<in> set ls \<longrightarrow> dl \<in> {1, 2, 4, 8, 16, 32, 60}"
    by (auto simp: tasks_inv_def delay_values_def)
  then have all: "case connect_all rt tevs (c\<lparr>running := True\<rparr>) of (ls, st) \<Rightarrow>
         (\<exists>v \<in> {1, 2, 4, 8, 16, 32, 60}. reconnect_delays st symbol = Some v)
       \<and> (\<forall>dl. Sleeping dl \<in> set ls \<longrightarrow> dl \<in> {1, 2, 4, 8, 16, 32, 60})"
    using r2 by simp
  from i single all show ?thesis by (intro conjI)
qed

lemma init_collector_sample:
  "init_collector [''BTCUSDT''] empty_db = Inr (sample_collector\<lparr>running := False\<rparr>)"
  by (simp add: init_collector_def lower_BTCUSDT strip_BTCUSDT strip_btcusdt
      sample_collector_def INITIAL_RECONNECT_DELAY_def)

text \<open>The theorem at a run: a failed connection, the sleep, a connection that is
  established and then ends, the sleep, a failed connection. The task then sleeps for
  2: the delay was reset to 1 by the connection and doubled once.\<close>

theorem reconnect_delay_witness:
  "init_collector [''BTCUSDT''] empty_db = Inr (sample_collector\<lparr>running := False\<rparr>)
   \<and> ''btcusdt'' \<in> set (symbols (sample_collector\<lparr>running := False\<rparr>))
   \<and> fst (connect_symbol sample_runtime ''btcusdt''
        [ConnectRaises OtherError, SleepOver, ConnectOk, StreamEnd, SleepOver,
         ConnectRaises ConnectionClosed]
        (sample_collector\<lparr>running := False, running := True\<rparr>)) = Sleeping 2
   \<and> reconnect_delays (snd (connect_symbol sample_runtime ''btcusdt''
        [ConnectRaises OtherError, SleepOver, ConnectOk, StreamEnd, SleepOver,
         ConnectRaises ConnectionClosed]
        (sample_collector\<lparr>running := False, running := True\<rparr>))) ''btcusdt'' = Some 2"
  using reconnect_delay_doubles_capped_resets[OF init_collector_sample, of "''btcusdt''"
      sample_runtime "[ConnectRaises OtherError, SleepOver, ConnectOk, StreamEnd, SleepOver,
         ConnectRaises ConnectionClosed]"]
  by (simp add: init_collector_sample sample_collector_def connect_symbol_def loop_head_def
      except_clause_def after_try_def INITIAL_RECONNECT_DELAY_def MAX_RECONNECT_DELAY_def)

subsection \<open>The flush of the buffer\<close>

lemma save_buffer_iter_returns: "\<exists>st'. save_buffer_iter rt fault st = Inr st'"
  using insert_ticks_batch_returns[of rt fault "db st" "buffer st"]
  by (auto simp: save_buffer_iter_def)

lemma save_buffer_returns: "\<exists>st'. save_buffer rt script st = Inr st'"
proof (induction script arbitrary: st)
  case Nil
  then show ?case by simp
next
  case (Cons a script)
  obtain arrived stop fault where a: "a = (arrived, stop, fault)" by (cases a)
  show ?case
  proof (cases "running st")
    case False
    then show ?thesis using a by simp
  next
    case True
    obtain st1 where "save_buffer_iter rt fault
         (st\<lparr>buffer := buffer st @ arrived, running := running st \<and> \<not> stop\<rparr>) = Inr st1"
      using save_buffer_iter_returns by blast
    then show ?thesis using Cons.IH[of st1] a True by simp
  qed
qed

lemma save_buffer_iter_fault:
  assumes "buffer st \<noteq> []"
  shows "save_buffer_iter rt (Some msg) st =
     Inr (st\<lparr>db := (db st)\<lparr>db_log := db_log (db st) @ [(ERROR, ''Error inserting batch: '' @ msg)]\<rparr>,
             logged := logged st @ [(DEBUG, ''Saved trades to database'')],
             buffer := []\<rparr>)"
  using assms by (simp add: save_buffer_iter_def insert_ticks_batch_def)

text \<open>
  C5. The write of a non-empty buffer fails with message \<open>msg\<close>. The flush then logs
  the failure (the database does), leaves the \<open>ticks\<close> table as it was and empties the
  buffer; the scheduler goes on from the state with the empty buffer, so the batch
  is written by no later flush; and the scheduler returns normally on every script.
\<close>

theorem save_buffer_failed_write_loses_batch:
  "(buffer st \<noteq> [] \<longrightarrow>
      (\<exists>st'. save_buffer_iter rt (Some msg) st = Inr st'
         \<and> buffer st' = []
         \<and> ticks (db st') = ticks (db st)
         \<and> db_log (db st') = db_log (db st) @ [(ERROR, ''Error inserting batch: '' @ msg)]
         \<and> running st' = running st))
   \<and> (running st \<and> buffer st @ arrived \<noteq> [] \<longrightarrow>
        save_buffer rt ((arrived, stop, Some msg) # script) st =
        save_buffer rt script
          (st\<lparr>running := \<not> stop,
              db := (db st)\<lparr>db_log := db_log (db st) @ [(ERROR, ''Error inserting batch: '' @ msg)]\<rparr>,
              logged := logged st @ [(DEBUG, ''Saved trades to database'')],
              buffer := []\<rparr>))
   \<and> (\<exists>st'. save_buffer rt ((arrived, stop, Some msg) # script) st = Inr st')"
proof (intro conjI impI)
  assume "buffer st \<noteq> []"
  from save_buffer_iter_fault[OF this, of rt msg]
  show "\<exists>st'. save_buffer_iter rt (Some msg) st = Inr st'
         \<and> buffer st' = []
         \<and> ticks (db st') = ticks (db st)
         \<and> db_log (db st') = db_log (db st) @ [(ERROR, ''Error inserting batch: '' @ msg)]
         \<and> running st' = running st"
    by simp
next
  assume a: "running st \<and> buffer st @ arrived \<noteq> []"
  let ?st1 = "st\<lparr>buffer := buffer st @ arrived, running := \<not> stop\<rparr>"
  have "buffer ?st1 \<noteq> []" using a by simp
  from save_buffer_iter_fault[OF this, of rt msg] a
  show "save_buffer rt ((arrived, stop, Some msg) # script) st =
        save_buffer rt script
          (st\<lparr>running := \<not> stop,
              db := (db st)\<lparr>db_log := db_log (db st) @ [(ERROR, ''Error inserting batch: '' @ msg)]\<rparr>,
              logged := logged st @ [(DEBUG, ''Saved trades to database'')],
              buffer := []\<rparr>)"
    by simp
next
  show "\<exists>st'. save_buffer rt ((arrived, stop, Some msg) # script) st = Inr st'"
    by (rule save_buffer_returns)
qed

text \<open>The theorem at a buffer of one tick and a locked database.\<close>

theorem save_buffer_failed_write_witness:
  "buffer (sample_collector\<lparr>buffer := [sample_tick]\<rparr>) \<noteq> []
   \<and> (\<exists>st'. save_buffer_iter sample_runtime (Some ''database is locked'')
              (sample_collector\<lparr>buffer := [sample_tick]\<rparr>) = Inr st'
         \<and> buffer st' = [] \<and> ticks (db st') = Map.empty
         \<and> db_log (db st') = [(ERROR, ''Error inserting batch: database is locked'')])
   \<and> running sample_collector \<and> buffer sample_collector @ [sample_tick] \<noteq> []"
  using save_buffer_failed_write_loses_batch[of "sample_collector\<lparr>buffer := [sample_tick]\<rparr>"
      sample_runtime "''database is locked''" "[]" False "[]"]
  by (simp add: sample_collector_def empty_db_def save_buffer_iter_def insert_ticks_batch_def)

section \<open>Properties of the database\<close>

lemma isoformat_epoch: "isoformat 0 = ''1970-01-01T00:00:00''"
  by code_simp

lemma keyed_empty: "keyed empty_db"
  by (simp add: keyed_def empty_db_def)

lemma insert_ohlc_returns: "\<exists>d'. insert_ohlc fault d s ts tf op hi lo cl vol = Inr d'"
  by (simp add: insert_ohlc_def split: option.splits)

lemma insert_ohlc_keyed:
  assumes "keyed d" "insert_ohlc fault d s ts tf op hi lo cl vol = Inr d'"
  shows "keyed d'"
  using assms by (auto simp: keyed_def insert_ohlc_def split: option.splits if_splits)

lemma insert_ohlc_all_keyed:
  "keyed d \<Longrightarrow> insert_ohlc_all calls d = Inr d' \<Longrightarrow> keyed d'"
proof (induction calls arbitrary: d)
  case Nil
  then show ?case by simp
next
  case (Cons a calls)
  obtain fault r where a: "a = (fault, r)" by (cases a)
  obtain d1 where d1: "insert_ohlc fault d (o_symbol r) (o_timestamp r) (o_timeframe r)
             (o_open r) (o_high r) (o_low r) (o_close r) (o_volume r) = Inr d1"
    using insert_ohlc_returns by blast
  from insert_ohlc_keyed[OF Cons.prems(1) d1] have "keyed d1" .
  moreover from Cons.prems(2) a d1 have "insert_ohlc_all calls d1 = Inr d'" by simp
  ultimately show ?case by (rule Cons.IH)
qed

lemma insert_ohlc_all_returns: "\<exists>d'. insert_ohlc_all calls d = Inr d'"
proof (induction calls arbitrary: d)
  case Nil
  then show ?case by simp
next
  case (Cons a calls)
  obtain fault r where a: "a = (fault, r)" by (cases a)
  obtain d1 where d1: "insert_ohlc fault d (o_symbol r) (o_timestamp r) (o_timeframe r)
             (o_open r) (o_high r) (o_low r) (o_close r) (o_volume r) = Inr d1"
    using insert_ohlc_returns by blast
  then show ?case using Cons.IH[of d1] a by simp
qed

text \<open>
  C9. If the bar stored under the key of \<open>(symbol, timeframe, timestamp)\<close> already has
  the values of the call, a successful \<open>insert_ohlc\<close> returns the database unchanged,
  and a failed one leaves the table unchanged. A successful \<open>insert_ohlc\<close> stores the
  bar of the call under that key, whatever was there, changes no other key, and doing
  it again changes nothing. After any history of calls from the empty database, two
  stored bars with the same symbol, timeframe and timestamp are the same bar under the
  same id: there is at most one bar per key.
\<close>

theorem insert_ohlc_idempotent_upsert:
  "(ohlc d (ohlc_id symbol timeframe timestamp)
      = Some \<lparr>o_symbol = symbol, o_timestamp = timestamp, o_timeframe = timeframe,
               o_open = op, o_high = hi, o_low = lo, o_close = cl, o_volume = vol\<rparr>
     \<longrightarrow> insert_ohlc None d symbol timestamp timeframe op hi lo cl vol = Inr d
         \<and> (\<exists>d'. insert_ohlc fault d symbol timestamp timeframe op hi lo cl vol = Inr d'
               \<and> ohlc d' = ohlc d))
   \<and> (\<exists>d'. insert_ohlc None d symbol timestamp timeframe op hi lo cl vol = Inr d'
        \<and> ohlc d' (ohlc_id symbol timeframe timestamp)
            = Some \<lparr>o_symbol = symbol, o_timestamp = timestamp, o_timeframe = timeframe,
               o_open = op, o_high = hi, o_low = lo, o_close = cl, o_volume = vol\<rparr>
        \<and> (\<forall>k. k \<noteq> ohlc_id symbol timeframe timestamp \<longrightarrow> ohlc d' k = ohlc d k)
        \<and> insert_ohlc None d' symbol timestamp timeframe op hi lo cl vol = Inr d')
   \<and> (\<exists>d'. insert_ohlc_all calls empty_db = Inr d'
        \<and> (\<forall>k1 k2 r1 r2. ohlc d' k1 = Some r1 \<and> ohlc d' k2 = Some r2
              \<and> o_symbol r1 = o_symbol r2 \<and> o_timeframe r1 = o_timeframe r2
              \<and> o_timestamp r1 = o_timestamp r2
             \<longrightarrow> k1 = k2 \<and> r1 = r2))"
proof (intro conjI impI)
  assume "ohlc d (ohlc_id symbol timeframe timestamp)
      = Some \<lparr>o_symbol = symbol, o_timestamp = timestamp, o_timeframe = timeframe,
               o_open = op, o_high = hi, o_low = lo, o_close = cl, o_volume = vol\<rparr>"
  then have u: "(ohlc d)(ohlc_id symbol timeframe timestamp \<mapsto>
      \<lparr>o_symbol = symbol, o_timestamp = timestamp, o_timeframe = timeframe,
               o_open = op, o_high = hi, o_low = lo, o_close = cl, o_volume = vol\<rparr>) = ohlc d"
    by (rule map_upd_triv)
  then show "insert_ohlc None d symbol timestamp timeframe op hi lo cl vol = Inr d"
    by (simp add: insert_ohlc_def)
  from u show "\<exists>d'. insert_ohlc fault d symbol timestamp timeframe op hi lo cl vol = Inr d'
               \<and> ohlc d' = ohlc d"
    by (cases fault) (simp_all add: insert_ohlc_def)
next
  show "\<exists>d'. insert_ohlc None d symbol timestamp timeframe op hi lo cl vol = Inr d'
        \<and> ohlc d' (ohlc_id symbol timeframe timestamp)
            = Some \<lparr>o_symbol = symbol, o_timestamp = timestamp, o_timeframe = timeframe,
               o_open = op, o_high = hi, o_low = lo, o_close = cl, o_volume = vol\<rparr>
        \<and> (\<forall>k. k \<noteq> ohlc_id symbol timeframe timestamp \<longrightarrow> ohlc d' k = ohlc d k)
        \<and> insert_ohlc None d' symbol timestamp timeframe op hi lo cl vol = Inr d'"
    by (simp add: insert_ohlc_def)
next
  obtain d' where d': "insert_ohlc_all calls empty_db = Inr d'"
    using insert_ohlc_all_returns by blast
  from insert_ohlc_all_keyed[OF keyed_empty d'] have k: "keyed d'" .
  have "k1 = k2 \<and> r1 = r2"
    if "ohlc d' k1 = Some r1" "ohlc d' k2 = Some r2" "o_symbol r1 = o_symbol r2"
       "o_timeframe r1 = o_timeframe r2" "o_timestamp r1 = o_timestamp r2" for k1 k2 r1 r2
  proof -
    from k that have "k1 = k2" unfolding keyed_def by metis
    with that show ?thesis by simp
  qed
  with d' show "\<exists>d'. insert_ohlc_all calls empty_db = Inr d'
        \<and> (\<forall>k1 k2 r1 r2. ohlc d' k1 = Some r1 \<and> ohlc d' k2 = Some r2
              \<and> o_symbol r1 = o_symbol r2 \<and> o_timeframe r1 = o_timeframe r2
              \<and> o_timestamp r1 = o_timestamp r2
             \<longrightarrow> k1 = k2 \<and> r1 = r2)"
    by blast
qed

text \<open>The theorem at a database that holds the bar of the call.\<close>

theorem insert_ohlc_idempotent_witness:
  "ohlc sample_db (ohlc_id ''btcusdt'' ''1s'' 0)
      = Some \<lparr>o_symbol = ''btcusdt'', o_timestamp = 0, o_timeframe = ''1s'',
               o_open = 100, o_high = 100, o_low = 100, o_close = 100, o_volume = 1\<rparr>
   \<and> insert_ohlc None sample_db ''btcusdt'' 0 ''1s'' 100 100 100 100 1 = Inr sample_db"
proof -
  have h: "ohlc sample_db (ohlc_id ''btcusdt'' ''1s'' 0)
      = Some \<lparr>o_symbol = ''btcusdt'', o_timestamp = 0, o_timeframe = ''1s'',
               o_open = 100, o_high = 100, o_low = 100, o_close = 100, o_volume = 1\<rparr>"
    by (simp add: sample_db_def ohlc_id_def isoformat_epoch sample_row_def)
  from insert_ohlc_idempotent_upsert[THEN conjunct1, THEN mp, OF h, THEN conjunct1] h
  show ?thesis by (rule conjI[rotated])
qed

section \<open>Properties of the analytics engine\<close>

subsection \<open>The spread\<close>

lemma asof_backward_None: "asof_backward right t = None \<longleftrightarrow> (\<forall>b \<in> set right. t < fst b)"
proof -
  have "filter (\<lambda>r. fst r \<le> t) right = [] \<longleftrightarrow> (\<forall>b \<in> set right. t < fst b)"
    by (auto simp: filter_empty_conv not_le)
  then show ?thesis by (auto simp: asof_backward_def split: list.splits)
qed

lemma sorted_key_last:
  assumes "sorted (map f xs)" "x \<in> set xs"
  shows "f x \<le> f (last xs)"
  using assms by (induction xs) (auto split: if_splits)

lemma asof_backward_Some:
  assumes "sorted (map fst right)" "asof_backward right t = Some p"
  shows "\<exists>b \<in> set right. fst b \<le> t \<and> snd b = p \<and> (\<forall>b' \<in> set right. fst b' \<le> t \<longrightarrow> fst b' \<le> fst b)"
proof -
  let ?rs = "filter (\<lambda>r. fst r \<le> t) right"
  from assms(2) have ne: "?rs \<noteq> []" and p: "p = snd (last ?rs)"
    by (auto simp: asof_backward_def split: list.splits)
  have s: "sorted (map fst ?rs)" using assms(1) by (rule sorted_filter)
  have l: "last ?rs \<in> set ?rs" using ne by (rule last_in_set)
  have "\<forall>b' \<in> set right. fst b' \<le> t \<longrightarrow> fst b' \<le> fst (last ?rs)"
  proof (intro ballI impI)
    fix b' assume "b' \<in> set right" "fst b' \<le> t"
    then have "b' \<in> set ?rs" by simp
    from sorted_key_last[OF s this] show "fst b' \<le> fst (last ?rs)" .
  qed
  with l p show ?thesis by auto
qed

lemma length_compute_spread:
  "df1 \<noteq> [] \<Longrightarrow> df2 \<noteq> [] \<Longrightarrow> length (compute_spread df1 df2 h) = length df1"
  by (simp add: compute_spread_def merge_asof_def Let_def)

lemma compute_spread_nth:
  assumes "df1 \<noteq> []" "df2 \<noteq> []" "h \<noteq> Some 0" "i < length df1"
  shows "compute_spread df1 df2 h ! i =
     np_sub (asof_backward (sort_key fst df2) (fst (sort_key fst df1 ! i)))
            (Some ((case h of None \<Rightarrow> 1 | Some x \<Rightarrow> x) * snd (sort_key fst df1 ! i)))"
proof (cases h)
  case None
  then show ?thesis using assms
    by (simp add: compute_spread_def merge_asof_def Let_def truthy_float_def)
next
  case (Some x)
  then have "x \<noteq> 0" using assms(3) by simp
  then show ?thesis using assms Some
    by (simp add: compute_spread_def merge_asof_def Let_def truthy_float_def)
qed

text \<open>
  C2, as the code has it, for a hedge ratio that is not supplied or is supplied and is
  not zero. Both frames are non-empty. The result has one cell for each row of series
  A (\<open>df1\<close>), in the order of A's timestamps. The cell of a row of A is NaN exactly
  when no row of series B (\<open>df2\<close>) is at or before its timestamp; otherwise it is
  \<open>priceB - hedge_ratio * priceA\<close> for a most recent row of B at or before the
  timestamp of the row of A, the hedge ratio being 1 when it is not supplied.
\<close>

theorem compute_spread_pairs_each_row_of_first:
  assumes "df1 \<noteq> []" and "df2 \<noteq> []" and "hedge_ratio \<noteq> Some 0"
  shows "length (compute_spread df1 df2 hedge_ratio) = length df1
    \<and> (\<forall>i < length df1.
         (compute_spread df1 df2 hedge_ratio ! i = None
            \<longleftrightarrow> (\<forall>b \<in> set df2. fst (sort_key fst df1 ! i) < fst b))
       \<and> (\<forall>s. compute_spread df1 df2 hedge_ratio ! i = Some s \<longrightarrow>
             (\<exists>b \<in> set df2. fst b \<le> fst (sort_key fst df1 ! i)
                \<and> (\<forall>b' \<in> set df2. fst b' \<le> fst (sort_key fst df1 ! i) \<longrightarrow> fst b' \<le> fst b)
                \<and> s = snd b - (case hedge_ratio of None \<Rightarrow> 1 | Some h \<Rightarrow> h)
                               * snd (sort_key fst df1 ! i))))"
proof (intro conjI allI impI)
  show "length (compute_spread df1 df2 hedge_ratio) = length df1"
    using assms(1,2) by (rule length_compute_spread)
next
  fix i assume i: "i < length df1"
  let ?a = "sort_key fst df1 ! i"
  have n: "compute_spread df1 df2 hedge_ratio ! i =
     np_sub (asof_backward (sort_key fst df2) (fst ?a)) (Some ((case hedge_ratio of None \<Rightarrow> 1 | Some h \<Rightarrow> h) * snd ?a))"
    using assms i by (rule compute_spread_nth)
  show "compute_spread df1 df2 hedge_ratio ! i = None
            \<longleftrightarrow> (\<forall>b \<in> set df2. fst ?a < fst b)"
    using asof_backward_None[of "sort_key fst df2" "fst ?a"]
    by (cases "asof_backward (sort_key fst df2) (fst ?a)") (simp_all add: n np_sub_def)
next
  fix i s assume i: "i < length df1" and s: "compute_spread df1 df2 hedge_ratio ! i = Some s"
  let ?a = "sort_key fst df1 ! i"
  have n: "compute_spread df1 df2 hedge_ratio ! i =
     np_sub (asof_backward (sort_key fst df2) (fst ?a)) (Some ((case hedge_ratio of None \<Rightarrow> 1 | Some h \<Rightarrow> h) * snd ?a))"
    using assms i by (rule compute_spread_nth)
  from s n obtain p where p: "asof_backward (sort_key fst df2) (fst ?a) = Some p"
    and sp: "s = p - (case hedge_ratio of None \<Rightarrow> 1 | Some h \<Rightarrow> h) * snd ?a"
    by (auto simp: np_sub_def split: option.splits)
  have "sorted (map fst (sort_key fst df2))" by (rule sorted_sort_key)
  from asof_backward_Some[OF this p] sp
  show "\<exists>b \<in> set df2. fst b \<le> fst ?a
                \<and> (\<forall>b' \<in> set df2. fst b' \<le> fst ?a \<longrightarrow> fst b' \<le> fst b)
                \<and> s = snd b - (case hedge_ratio of None \<Rightarrow> 1 | Some h \<Rightarrow> h) * snd ?a"
    by auto
qed

text \<open>The theorem at series A with rows at 0 s and 2 s, series B with a row at 1 s and
  the hedge ratio 2: two cells, the second \<open>20 - 2 * 12\<close>.\<close>

theorem compute_spread_witness:
  "[(0, 10), (2000000, 12)] \<noteq> ([] :: price_row list)
   \<and> [(1000000, 20)] \<noteq> ([] :: price_row list)
   \<and> Some 2 \<noteq> Some (0 :: real)
   \<and> length (compute_spread [(0, 10), (2000000, 12)] [(1000000, 20)] (Some 2)) = 2
   \<and> compute_spread [(0, 10), (2000000, 12)] [(1000000, 20)] (Some 2) ! 1 = Some (- 4)"
  using compute_spread_pairs_each_row_of_first
    [of "[(0, 10), (2000000, 12)]" "[(1000000, 20)]" "Some 2"]
  by (simp add: compute_spread_def merge_asof_def asof_backward_def truthy_float_def np_sub_def)

text \<open>A hedge ratio of zero is outside the theorem: \<open>if hedge_ratio:\<close> takes a supplied
  \<open>0.0\<close> for a ratio that is not supplied, and the cell is \<open>priceB - priceA\<close>.\<close>

lemma compute_spread_zero_ratio: "compute_spread [(0, 10)] [(0, 20)] (Some 0) = [Some 10]"
  by (simp add: compute_spread_def merge_asof_def asof_backward_def truthy_float_def np_sub_def)

text \<open>
  C2 as stated fails. Series A has rows at 0 s and 2 s, series B has one row at 1 s.
  The code returns a cell for each row of A: NaN (no row of B at or before 0 s) and
  \<open>20 - 12\<close>. Pairing each row of B with the most recent row of A, as the claim says,
  gives the single cell \<open>20 - 10\<close>.
\<close>

theorem compute_spread_direction_counterexample:
  "compute_spread [(0, 10), (2000000, 12)] [(1000000, 20)] None = [None, Some 8]
   \<and> spread_as_specified [(0, 10), (2000000, 12)] [(1000000, 20)] None = [Some 10]"
  by (simp add: compute_spread_def spread_as_specified_def merge_asof_def asof_backward_def
      truthy_float_def np_sub_def)

subsection \<open>The rolling z-score\<close>

lemma length_compute_zscore:
  assumes "length (rolling_mean pd series w) = length series"
    and "length (rolling_std pd series w) = length series"
  shows "length (compute_zscore pd series w) = length series"
  using assms by (simp add: compute_zscore_def)

lemma compute_zscore_nth:
  assumes "length (rolling_mean pd series w) = length series"
    and "length (rolling_std pd series w) = length series"
    and "i < length series"
  shows "compute_zscore pd series w ! i =
     np_div (np_sub (series ! i) (rolling_mean pd series w ! i))
            (replace_zero (rolling_std pd series w ! i))"
proof -
  from assms(3) have "series \<noteq> []" by auto
  then show ?thesis using assms by (simp add: compute_zscore_def)
qed

lemma replace_zero_nonzero: "replace_zero c \<noteq> Some 0"
  by (simp add: replace_zero_def split: option.splits)

lemma np_div_infinite: "np_div a b = Infinite \<Longrightarrow> b = Some 0"
  by (auto simp: np_div_def split: option.splits if_splits)

lemma np_div_None: "np_div a None = NaN"
  by (simp add: np_div_def split: option.splits)

text \<open>No quotient is an infinity, whatever the rolling statistics are: the divisors are
  the cells of \<open>rolling_std.replace(0, np.nan)\<close>, none of which is zero.\<close>

lemma compute_zscore_no_infinity: "Infinite \<notin> set (compute_zscore pd series w)"
proof
  assume "Infinite \<in> set (compute_zscore pd series w)"
  then have "Infinite \<in> set (map2 np_div (map2 np_sub series (rolling_mean pd series w))
                       (map replace_zero (rolling_std pd series w)))"
    by (simp add: compute_zscore_def split: if_splits)
  then obtain a b where
    z: "(a, b) \<in> set (zip (map2 np_sub series (rolling_mean pd series w))
                           (map replace_zero (rolling_std pd series w)))"
    and q: "np_div a b = Infinite"
    by force
  from z have "b \<in> set (map replace_zero (rolling_std pd series w))" by (rule set_zip_rightD)
  then obtain c where "b = replace_zero c" by auto
  moreover from q have "b = Some 0" by (rule np_div_infinite)
  ultimately show False using replace_zero_nonzero[of c] by simp
qed

text \<open>
  C8. \<open>pd\<close> is pandas: its rolling mean and rolling deviation of the series are series
  of the length of the series. The result has a cell for each cell of the series. At
  a position where the value, the rolling mean and the rolling deviation are numbers
  and the deviation is not zero, the cell is \<open>(value - mean) / std\<close>; where one of
  them is NaN the cell is NaN; where the deviation is exactly zero the cell is NaN,
  whatever the value and the mean are. No cell is an infinity: no division by zero
  takes place. On a constant series, whose rolling deviation pandas returns as 0 or
  NaN at every position, every cell is NaN.
\<close>

theorem compute_zscore_defined_or_nan:
  assumes "length (rolling_mean pd series w) = length series"
    and "length (rolling_std pd series w) = length series"
  shows "length (compute_zscore pd series w) = length series
   \<and> Infinite \<notin> set (compute_zscore pd series w)
   \<and> (\<forall>i < length series.
        (rolling_std pd series w ! i = Some 0 \<longrightarrow> compute_zscore pd series w ! i = NaN)
      \<and> (\<forall>v m sd. series ! i = Some v \<and> rolling_mean pd series w ! i = Some m
            \<and> rolling_std pd series w ! i = Some sd \<and> sd \<noteq> 0
           \<longrightarrow> compute_zscore pd series w ! i = Num ((v - m) / sd))
      \<and> (series ! i = None \<or> rolling_mean pd series w ! i = None
            \<or> rolling_std pd series w ! i = None
           \<longrightarrow> compute_zscore pd series w ! i = NaN))
   \<and> (constant_std_zero pd \<and> (\<forall>x \<in> set series. x = Some c)
        \<longrightarrow> (\<forall>z \<in> set (compute_zscore pd series w). z = NaN))"
proof (intro conjI allI impI ballI)
  show "length (compute_zscore pd series w) = length series"
    using assms by (rule length_compute_zscore)
  show "Infinite \<notin> set (compute_zscore pd series w)" by (rule compute_zscore_no_infinity)
next
  fix i assume "i < length series" "rolling_std pd series w ! i = Some 0"
  then show "compute_zscore pd series w ! i = NaN"
    using assms by (simp add: compute_zscore_nth replace_zero_def np_div_None)
next
  fix i v m sd
  assume "i < length series"
    and "series ! i = Some v \<and> rolling_mean pd series w ! i = Some m
            \<and> rolling_std pd series w ! i = Some sd \<and> sd \<noteq> 0"
  then show "compute_zscore pd series w ! i = Num ((v - m) / sd)"
    using assms by (simp add: compute_zscore_nth replace_zero_def np_div_def np_sub_def)
next
  fix i
  assume "i < length series"
    and "series ! i = None \<or> rolling_mean pd series w ! i = None
            \<or> rolling_std pd series w ! i = None"
  then show "compute_zscore pd series w ! i = NaN"
    using assms
    by (auto simp: compute_zscore_nth replace_zero_def np_div_def np_sub_def
        split: option.splits)
next
  fix z
  assume c: "constant_std_zero pd \<and> (\<forall>x \<in> set series. x = Some c)"
    and "z \<in> set (compute_zscore pd series w)"
  then obtain i where i: "i < length series" "z = compute_zscore pd series w ! i"
    using assms by (auto simp: in_set_conv_nth length_compute_zscore)
  from c have "series = replicate (length series) (Some c)"
    by (simp add: replicate_length_same)
  then have "\<forall>s \<in> set (rolling_std pd series w). s = None \<or> s = Some 0"
    using c unfolding constant_std_zero_def by metis
  moreover have "rolling_std pd series w ! i \<in> set (rolling_std pd series w)"
    using i(1) assms(2) by simp
  ultimately have "replace_zero (rolling_std pd series w ! i) = None"
    by (auto simp: replace_zero_def)
  then show "z = NaN" using i assms by (simp add: compute_zscore_nth np_div_None)
qed

text \<open>
  The theorem at three series and the window 3, with what pandas returns on each. On
  \<open>5, 5, 5\<close> the deviation at the last position is 0 and the cell is NaN. On
  \<open>0, 3, 6\<close> the mean is 3, the deviation is 3 and the cell is 1. On
  \<open>1e-200, 2e-200, 3e-200\<close> the deviation is returned as 0 although the value is not
  the mean, and the cell is NaN.
\<close>

theorem compute_zscore_witness:
  "constant_std_zero (pandas_returning [None, None, Some 5] [None, None, Some 0])
   \<and> set (compute_zscore (pandas_returning [None, None, Some 5] [None, None, Some 0])
           [Some 5, Some 5, Some 5] 3) = {NaN}
   \<and> compute_zscore (pandas_returning [None, None, Some 3] [None, None, Some 3])
           [Some 0, Some 3, Some 6] 3 ! 2 = Num 1
   \<and> np_sub (Some (3 / 10 ^ 200)) (Some (2 / 10 ^ 200)) \<noteq> Some 0
   \<and> compute_zscore (pandas_returning [None, None, Some (2 / 10 ^ 200)] [None, None, Some 0])
           [Some (1 / 10 ^ 200), Some (2 / 10 ^ 200), Some (3 / 10 ^ 200)] 3 ! 2 = NaN"
proof -
  let ?c = "pandas_returning [None, None, Some 5] [None, None, Some 0]"
  let ?l = "pandas_returning [None, None, Some 3] [None, None, Some 3]"
  let ?u = "pandas_returning [None, None, Some (2 / 10 ^ 200)] [None, None, Some 0]"
  let ?tiny = "[Some (1 / 10 ^ 200), Some (2 / 10 ^ 200), Some (3 / 10 ^ 200 :: real)]"
  have cz: "constant_std_zero ?c"
    by (simp add: constant_std_zero_def pandas_returning_def)
  have five: "\<forall>x \<in> set [Some (5::real), Some 5, Some 5]. x = Some 5" by simp
  note tc = compute_zscore_defined_or_nan[of ?c "[Some 5, Some 5, Some 5]" 3 5]
  have lc: "length (rolling_mean ?c [Some 5, Some 5, Some 5] 3) = length [Some (5::real), Some 5, Some 5]"
    "length (rolling_std ?c [Some 5, Some 5, Some 5] 3) = length [Some (5::real), Some 5, Some 5]"
    by (simp_all add: pandas_returning_def)
  from tc[OF lc] cz five
  have "\<forall>z \<in> set (compute_zscore ?c [Some 5, Some 5, Some 5] 3). z = NaN" by blast
  then have sub: "set (compute_zscore ?c [Some 5, Some 5, Some 5] 3) \<subseteq> {NaN}" by blast
  have "length (compute_zscore ?c [Some 5, Some 5, Some 5] 3) = 3"
    using tc[OF lc] by simp
  then have ne: "set (compute_zscore ?c [Some 5, Some 5, Some 5] 3) \<noteq> {}" by auto
  from subset_singletonD[OF sub] ne
  have a: "set (compute_zscore ?c [Some 5, Some 5, Some 5] 3) = {NaN}" by simp
  have ll: "length (rolling_mean ?l [Some 0, Some 3, Some 6] 3) = length [Some (0::real), Some 3, Some 6]"
    "length (rolling_std ?l [Some 0, Some 3, Some 6] 3) = length [Some (0::real), Some 3, Some 6]"
    by (simp_all add: pandas_returning_def)
  have l2: "2 < length [Some (0::real), Some 3, Some 6]" by simp
  note zl = compute_zscore_defined_or_nan[of ?l "[Some 0, Some 3, Some 6]" 3 5, OF ll,
      THEN conjunct2, THEN conjunct2, THEN conjunct1, THEN spec, of 2, THEN mp, OF l2,
      THEN conjunct2, THEN conjunct1, THEN spec, THEN spec, THEN spec, of 6 3 3]
  have b: "compute_zscore ?l [Some 0, Some 3, Some 6] 3 ! 2 = Num 1"
    using zl by (simp add: pandas_returning_def)
  have lu: "length (rolling_mean ?u ?tiny 3) = length ?tiny"
    "length (rolling_std ?u ?tiny 3) = length ?tiny"
    by (simp_all add: pandas_returning_def)
  have u2: "2 < length ?tiny" by simp
  note zu = compute_zscore_defined_or_nan[of ?u ?tiny 3 5, OF lu,
      THEN conjunct2, THEN conjunct2, THEN conjunct1, THEN spec, of 2, THEN mp, OF u2,
      THEN conjunct1]
  have c: "compute_zscore ?u ?tiny 3 ! 2 = NaN"
    using zu by (simp add: pandas_returning_def)
  have d: "np_sub (Some (3 / 10 ^ 200)) (Some (2 / 10 ^ 200)) \<noteq> Some 0"
    by (simp add: np_sub_def)
  from cz a b d c show ?thesis by (intro conjI)
qed

subsection \<open>The stationarity test\<close>

lemma length_dropna: "length (dropna series) \<le> length series"
  by (simp add: dropna_def map_filter_def) 

text \<open>
  C7, as the code has it. With fewer than 10 valid observations the result is an
  error result. With 10 or more, the result is what \<open>adfuller\<close> gives: when it
  returns, the statistic, the p-value, the critical values, the lag count, the
  observation count and the verdict, which is true exactly when the p-value is below
  0.05; when it raises, an error result with the text of the exception.
\<close>

theorem compute_adf_test_error_or_verdict:
  "(length (dropna series) < 10 \<longrightarrow> (\<exists>msg. compute_adf_test adfuller series maxlag = ErrorDict msg))
   \<and> (10 \<le> length (dropna series) \<longrightarrow>
        (case adfuller (dropna series) maxlag of
           Inr r \<Rightarrow> compute_adf_test adfuller series maxlag =
                     Dict \<lparr>adf_statistic = adf_stat r, pvalue = adf_pvalue r,
                          critical_values = adf_crit r, n_lags = adf_usedlag r,
                          n_observations = adf_nobs r, is_stationary = (adf_pvalue r < 0.05)\<rparr>
         | Inl msg \<Rightarrow> compute_adf_test adfuller series maxlag = ErrorDict msg))"
proof (intro conjI impI)
  assume "length (dropna series) < 10"
  then show "\<exists>msg. compute_adf_test adfuller series maxlag = ErrorDict msg"
    by (simp add: compute_adf_test_def Let_def)
next
  assume a: "10 \<le> length (dropna series)"
  with length_dropna[of series] have "10 \<le> length series" by linarith
  then have "series \<noteq> []" "\<not> length series < 10" by auto
  then show "case adfuller (dropna series) maxlag of
           Inr r \<Rightarrow> compute_adf_test adfuller series maxlag =
                     Dict \<lparr>adf_statistic = adf_stat r, pvalue = adf_pvalue r,
                          critical_values = adf_crit r, n_lags = adf_usedlag r,
                          n_observations = adf_nobs r, is_stationary = (adf_pvalue r < 0.05)\<rparr>
         | Inl msg \<Rightarrow> compute_adf_test adfuller series maxlag = ErrorDict msg"
    using a by (simp add: compute_adf_test_def Let_def split: sum.splits)
qed

text \<open>The theorem at a series of 10 valid observations and an \<open>adfuller\<close> that returns
  the p-value 0.01: the verdict is true.\<close>

theorem compute_adf_test_witness:
  "10 \<le> length (dropna (replicate 10 (Some 1)))
   \<and> compute_adf_test adfuller_returning (replicate 10 (Some 1)) None =
       Dict \<lparr>adf_statistic = - 4, pvalue = 0.01,
             critical_values = [(''1%'', - 3.5), (''5%'', - 2.9), (''10%'', - 2.6)],
             n_lags = 1, n_observations = 8, is_stationary = True\<rparr>
   \<and> length (dropna [Some 1, None, Some 2]) < 10
   \<and> compute_adf_test adfuller_returning [Some 1, None, Some 2] None
       = ErrorDict ''Insufficient data for ADF test''"
proof -
  have l: "length (dropna (replicate 10 (Some (1::real)))) = 10"
    by (simp add: dropna_def map_filter_def)
  have s: "length (dropna [Some 1, None, Some 2]) < 10"
    by (simp add: dropna_def map_filter_def)
  have "compute_adf_test adfuller_returning (replicate 10 (Some 1)) None =
       Dict \<lparr>adf_statistic = - 4, pvalue = 0.01,
             critical_values = [(''1%'', - 3.5), (''5%'', - 2.9), (''10%'', - 2.6)],
             n_lags = 1, n_observations = 8, is_stationary = True\<rparr>"
    using compute_adf_test_error_or_verdict[of "replicate 10 (Some 1)" adfuller_returning None] l
    by (simp add: adfuller_returning_def)
  moreover have "compute_adf_test adfuller_returning [Some 1, None, Some 2] None
       = ErrorDict ''Insufficient data for ADF test''"
    by (simp add: compute_adf_test_def)
  ultimately show ?thesis using l s by simp
qed

text \<open>
  C7 as stated fails: ten valid observations, \<open>adfuller\<close> raises (as statsmodels does on
  a constant series), and the result is an error result, not the statistics.
\<close>

theorem compute_adf_test_raising_counterexample:
  "length (dropna (replicate 10 (Some 1))) = 10
   \<and> compute_adf_test adfuller_raising (replicate 10 (Some 1)) None
       = ErrorDict ''Invalid input, x is constant''"
  by (simp add: compute_adf_test_def adfuller_raising_def dropna_def map_filter_def)

subsection \<open>Resampling\<close>

lemma width_of_values:
  "width_of ''1s'' = 1000000" "width_of ''1m'' = 60000000" "width_of ''5m'' = 300000000"
  by (simp_all add: width_of_def freq_map_def to_offset_def)

lemma width_of_other:
  "timeframe \<notin> {''1s'', ''1m'', ''5m''} \<Longrightarrow> width_of timeframe = 60000000"
  by (simp add: width_of_def freq_map_def to_offset_def)

lemma width_of_pos: "0 < width_of timeframe"
  by (simp add: width_of_def to_offset_def)







lemma bin_start_mult: "bin_start w t = w * (t div w)"
  by (simp add: bin_start_def minus_mod_eq_mult_div)




lemma bin_labels_cover:
  assumes "0 < w" "x \<in> set index"
  shows "bin_start w x \<in> set (bin_labels w index)"
proof -
  let ?mn = "Min (set index)" and ?mx = "Max (set index)"
  have fin: "finite (set index)" by simp
  have lo: "?mn \<le> x" using assms(2) by simp
  have hi: "x \<le> ?mx" using assms(2) by simp
  have d1: "?mn div w \<le> x div w" using lo assms(1) by (rule zdiv_mono1)
  have d2: "x div w \<le> ?mx div w" using hi assms(1) by (rule zdiv_mono1)
  let ?first = "bin_start w ?mn" and ?last = "bin_start w ?mx"
  have n: "(?last - ?first) div w = ?mx div w - ?mn div w"
  proof -
    have "?last - ?first = w * (?mx div w - ?mn div w)"
      by (simp add: bin_start_mult right_diff_distrib)
    then show ?thesis using assms(1) by simp
  qed
  let ?k = "nat (x div w - ?mn div w)"
  have k: "?k < Suc (nat ((?last - ?first) div w))" using d1 d2 by (simp add: n)
  have "bin_start w x = ?first + int ?k * w"
    using d1 by (simp add: bin_start_mult algebra_simps)
  then have "bin_start w x \<in> (\<lambda>k. ?first + int k * w) ` {0..<Suc (nat ((?last - ?first) div w))}"
    using k by (intro image_eqI[where x = ?k]) auto
  then show ?thesis unfolding bin_labels_def Let_def by (simp only: set_map set_upt)
qed







lemma sample_bar:
  "resample_data [sample_tick] ''1s'' =
     [\<lparr>b_timestamp = 0, b_open = 100, b_high = 100, b_low = 100, b_close = 100, b_volume = 1\<rparr>]"
  by (simp add: resample_data_def sample_tick_def freq_map_def to_offset_def bin_labels_def
      bin_start_def agg_bin_def in_bin_def dropna_bar_def Let_def map_filter_def upt_rec)



subsection \<open>Resampling a frame with missing cells\<close>

lemma resample_frame_unfold:
  "resample_frame df timeframe =
     (if df = [] then []
      else List.map_filter dropna_bar
             (map (agg_frame_bin (width_of timeframe) (sort_key f_timestamp df))
                  (bin_labels (width_of timeframe) (map f_timestamp df))))"
  by (simp add: resample_frame_def width_of_def Let_def)

lemma dropna_empty_conv: "dropna cells = [] \<longleftrightarrow> (\<forall>c \<in> set cells. c = None)"
  by (induction cells) (auto simp: dropna_def map_filter_def)

lemma dropna_agg_frame_bin:
  "dropna_bar (agg_frame_bin w (sort_key f_timestamp df) b) \<noteq> None
     \<longleftrightarrow> (\<exists>r \<in> set df. in_frame_bin w b r \<and> f_price r \<noteq> None)"
proof -
  let ?ps = "dropna (map f_price (filter (in_frame_bin w b) (sort_key f_timestamp df)))"
  have "dropna_bar (agg_frame_bin w (sort_key f_timestamp df) b) \<noteq> None \<longleftrightarrow> ?ps \<noteq> []"
    by (simp add: dropna_bar_def agg_frame_bin_def Let_def)
  also have "\<dots> \<longleftrightarrow> (\<exists>r \<in> set df. in_frame_bin w b r \<and> f_price r \<noteq> None)"
    by (auto simp: dropna_empty_conv)
  finally show ?thesis .
qed

lemma map_filter_empty_conv: "List.map_filter f xs = [] \<longleftrightarrow> (\<forall>x \<in> set xs. f x = None)"
  by (induction xs) (auto simp: map_filter_def)

lemma in_frame_bin_start: "0 < w \<Longrightarrow> in_frame_bin w (bin_start w (f_timestamp r)) r"
  by (simp add: in_frame_bin_def bin_start_def pos_mod_sign pos_mod_bound)

lemma resample_frame_nonempty:
  "resample_frame df timeframe \<noteq> [] \<longleftrightarrow> (\<exists>r \<in> set df. f_price r \<noteq> None)"
proof
  assume "resample_frame df timeframe \<noteq> []"
  then obtain b where "dropna_bar (agg_frame_bin (width_of timeframe) (sort_key f_timestamp df) b) \<noteq> None"
    by (auto simp: resample_frame_unfold map_filter_empty_conv split: if_splits)
  then show "\<exists>r \<in> set df. f_price r \<noteq> None"
    unfolding dropna_agg_frame_bin by blast
next
  assume "\<exists>r \<in> set df. f_price r \<noteq> None"
  then obtain r where r: "r \<in> set df" "f_price r \<noteq> None" by blast
  let ?w = "width_of timeframe"
  let ?b = "bin_start ?w (f_timestamp r)"
  have w: "0 < ?w" by (rule width_of_pos)
  have "f_timestamp r \<in> set (map f_timestamp df)" using r(1) by simp
  from bin_labels_cover[OF w this] have l: "?b \<in> set (bin_labels ?w (map f_timestamp df))" .
  have "dropna_bar (agg_frame_bin ?w (sort_key f_timestamp df) ?b) \<noteq> None"
    unfolding dropna_agg_frame_bin using r in_frame_bin_start[OF w] by blast
  with l have "\<not> (\<forall>x \<in> set (map (agg_frame_bin ?w (sort_key f_timestamp df))
                        (bin_labels ?w (map f_timestamp df))). dropna_bar x = None)"
    by auto
  then have "List.map_filter dropna_bar (map (agg_frame_bin ?w (sort_key f_timestamp df))
                        (bin_labels ?w (map f_timestamp df))) \<noteq> []"
    unfolding map_filter_empty_conv .
  moreover have "df \<noteq> []" using r(1) by auto
  ultimately show "resample_frame df timeframe \<noteq> []"
    unfolding resample_frame_unfold by simp
qed

lemma insort_key_map:
  "insort_key f (g x) (map g ys) = map g (insort_key (\<lambda>y. f (g y)) x ys)"
  by (induction ys) simp_all

lemma sort_key_map: "sort_key f (map g xs) = map g (sort_key (\<lambda>y. f (g y)) xs)"
  by (induction xs) (simp_all add: insort_key_map)

lemma dropna_map_Some: "dropna (map (\<lambda>x. Some (f x)) xs) = map f xs"
  by (induction xs) (simp_all add: dropna_def map_filter_def)

lemma in_frame_bin_ticks: "in_frame_bin w b (frame_row_of t) = in_bin w b t"
  by (simp add: in_frame_bin_def in_bin_def frame_row_of_def)

lemma agg_frame_bin_ticks:
  "agg_frame_bin w (map frame_row_of tks) = agg_bin w tks"
proof
  fix b
  have f: "filter (in_frame_bin w b) (map frame_row_of tks) = map frame_row_of (filter (in_bin w b) tks)"
    by (simp add: filter_map o_def in_frame_bin_ticks)
  have p: "dropna (map f_price (map frame_row_of g)) = map t_price g" for g
    using dropna_map_Some[of t_price g] by (simp add: o_def frame_row_of_def)
  have s: "dropna (map f_size (map frame_row_of g)) = map t_size g" for g
    using dropna_map_Some[of t_size g] by (simp add: o_def frame_row_of_def)
  show "agg_frame_bin w (map frame_row_of tks) b = agg_bin w tks b"
    by (simp only: agg_frame_bin_def agg_bin_def Let_def f p s)
qed

lemma resample_frame_ticks:
  "resample_frame (map frame_row_of tks) timeframe = resample_data tks timeframe"
proof -
  have t: "(\<lambda>y. f_timestamp (frame_row_of y)) = t_timestamp"
    by (simp add: frame_row_of_def fun_eq_iff)
  have s: "sort_key f_timestamp (map frame_row_of tks) = map frame_row_of (sort_key t_timestamp tks)"
    using sort_key_map[of f_timestamp frame_row_of tks] by (simp add: t)
  have i: "map f_timestamp (map frame_row_of tks) = map t_timestamp tks"
    by (simp add: frame_row_of_def)
  show ?thesis
    by (simp add: resample_frame_def resample_data_def Let_def s i agg_frame_bin_ticks
        del: map_map)
qed

lemma gappy_minute:
  "resample_frame gappy_frame ''1m'' =
     [\<lparr>b_timestamp = 0, b_open = 101, b_high = 101, b_low = 99, b_close = 99, b_volume = 2\<rparr>]"
  by (simp add: resample_frame_def gappy_frame_def freq_map_def to_offset_def bin_labels_def
      bin_start_def agg_frame_bin_def in_frame_bin_def dropna_bar_def dropna_def Let_def
      map_filter_def upt_rec)

lemma nan_frame_empty: "resample_frame nan_frame ''1h'' = []"
  by (simp add: resample_frame_def nan_frame_def freq_map_def to_offset_def bin_labels_def
      bin_start_def agg_frame_bin_def in_frame_bin_def dropna_bar_def dropna_def Let_def
      map_filter_def upt_rec)

text \<open>
  C10, as the code has it, on a frame whose price and size cells may be NaN. With a
  timeframe other than \<open>1s\<close>, \<open>1m\<close> and \<open>5m\<close> the result is the result for \<open>1m\<close>. For
  every timeframe the result is not empty exactly when some tick of the frame has a
  price that is a number: a frame that is not empty but whose prices are all NaN gives
  an empty result. On a frame of Ticks, whose cells are numbers, the result is that of
  \<open>resample_data\<close> above.
\<close>

theorem resample_frame_unknown_timeframe_is_minute:
  "(timeframe \<notin> {''1s'', ''1m'', ''5m''} \<longrightarrow>
       resample_frame df timeframe = resample_frame df ''1m'')
   \<and> (resample_frame df timeframe \<noteq> [] \<longleftrightarrow> (\<exists>r \<in> set df. f_price r \<noteq> None))
   \<and> resample_frame (map frame_row_of tks) timeframe = resample_data tks timeframe"
proof (intro conjI impI)
  assume "timeframe \<notin> {''1s'', ''1m'', ''5m''}"
  then have "width_of timeframe = width_of ''1m''" by (simp add: width_of_other width_of_values)
  then show "resample_frame df timeframe = resample_frame df ''1m''"
    by (simp add: resample_frame_unfold)
next
  show "resample_frame df timeframe \<noteq> [] \<longleftrightarrow> (\<exists>r \<in> set df. f_price r \<noteq> None)"
    by (rule resample_frame_nonempty)
  show "resample_frame (map frame_row_of tks) timeframe = resample_data tks timeframe"
    by (rule resample_frame_ticks)
qed

text \<open>The theorem at the timeframe \<open>1h\<close> and the frame of three ticks of which the first
  has no price and the second no size: one bar of a minute, from the two prices and the
  two sizes that are numbers.\<close>

theorem resample_frame_unknown_timeframe_witness:
  "''1h'' \<notin> {''1s'', ''1m'', ''5m''}
   \<and> resample_frame gappy_frame ''1h'' =
     [\<lparr>b_timestamp = 0, b_open = 101, b_high = 101, b_low = 99, b_close = 99, b_volume = 2\<rparr>]
   \<and> resample_frame gappy_frame ''1h'' \<noteq> []"
proof -
  have a: "''1h'' \<notin> {''1s'', ''1m'', ''5m''}" by simp
  note t = resample_frame_unknown_timeframe_is_minute[of "''1h''" gappy_frame]
  from t a have "resample_frame gappy_frame ''1h'' = resample_frame gappy_frame ''1m''" by blast
  then have b: "resample_frame gappy_frame ''1h'' =
     [\<lparr>b_timestamp = 0, b_open = 101, b_high = 101, b_low = 99, b_close = 99, b_volume = 2\<rparr>]"
    by (simp only: gappy_minute)
  have "\<exists>r \<in> set gappy_frame. f_price r \<noteq> None" by (simp add: gappy_frame_def)
  with t have c: "resample_frame gappy_frame ''1h'' \<noteq> []" by blast
  from a b c show ?thesis by (intro conjI)
qed

text \<open>
  C10 as stated fails: the frame has one tick, so it is not empty and has a timestamp
  column, the price of the tick is NaN, the timeframe is \<open>1h\<close>, and the result is
  empty.
\<close>

theorem resample_frame_nan_prices_counterexample:
  "nan_frame \<noteq> []
   \<and> ''1h'' \<notin> {''1s'', ''1m'', ''5m''}
   \<and> resample_frame nan_frame ''1h'' = []"
  using nan_frame_empty by (simp add: nan_frame_def)


section \<open>Properties of the aggregation loop\<close>

lemma save_rows_returns: "snd (save_rows faults symbol timeframe rows d) = None"
proof (induction rows arbitrary: d)
  case Nil
  then show ?case by simp
next
  case (Cons row rows)
  obtain d' where "insert_ohlc (faults (ohlc_id symbol timeframe (b_timestamp row))) d symbol
             (b_timestamp row) timeframe (b_open row) (b_high row) (b_low row) (b_close row)
             (b_volume row) = Inr d'"
    using insert_ohlc_returns by blast
  then show ?case using Cons.IH[of d'] by simp
qed

lemma process_symbols_slept: "p_slept (fst (process_symbols env timeframe syms st)) = p_slept st"
proof (induction syms arbitrary: st)
  case Nil
  then show ?case by simp
next
  case (Cons s syms)
  show ?case
  proof (cases "ticks_reply env s")
    case (Inl e)
    then show ?thesis by simp
  next
    case (Inr tks)
    obtain d where d: "save_rows (ohlc_fault env) s timeframe (resample_data tks timeframe) (p_db st)
        = (d, None)"
      using save_rows_returns[of "ohlc_fault env" s timeframe "resample_data tks timeframe" "p_db st"]
      by (cases "save_rows (ohlc_fault env) s timeframe (resample_data tks timeframe) (p_db st)") auto
    show ?thesis using Inr d Cons.IH by simp
  qed
qed

lemma process_symbols_stops:
  assumes "\<forall>s \<in> set pre. \<exists>tks. ticks_reply env s = Inr tks"
    and "ticks_reply env symbol = Inl e"
  shows "process_symbols env timeframe (pre @ symbol # post) st =
           (fst (process_symbols env timeframe pre st), Some e)
         \<and> snd (process_symbols env timeframe pre st) = None"
  using assms(1)
proof (induction pre arbitrary: st)
  case Nil
  then show ?case using assms(2) by simp
next
  case (Cons s pre)
  then obtain tks where tks: "ticks_reply env s = Inr tks" by auto
  from Cons.prems have rest: "\<forall>s \<in> set pre. \<exists>tks. ticks_reply env s = Inr tks" by simp
  obtain d where d: "save_rows (ohlc_fault env) s timeframe (resample_data tks timeframe) (p_db st)
        = (d, None)"
    using save_rows_returns[of "ohlc_fault env" s timeframe "resample_data tks timeframe" "p_db st"]
    by (cases "save_rows (ohlc_fault env) s timeframe (resample_data tks timeframe) (p_db st)") auto
  show ?case using tks d Cons.IH[OF rest] by simp
qed

text \<open>
  C1, as the code has it. The symbols of the cycle are \<open>pre\<close>, then \<open>symbol\<close>, then
  \<open>post\<close>; the reads for \<open>pre\<close> return and the read for \<open>symbol\<close> raises an
  exception. The cycle then ends in the state that processing \<open>pre\<close> alone reaches,
  with the error logged and a sleep of 5 added: the symbols of \<open>post\<close> are not
  processed in this cycle. The exception does not leave the loop, which goes on with
  the next cycle.
\<close>

theorem process_cycle_error_ends_cycle:
  assumes "symbols_reply env = Inr (pre @ symbol # post)"
    and "\<forall>s \<in> set pre. \<exists>tks. ticks_reply env s = Inr tks"
    and "ticks_reply env symbol = Inl e"
    and "is_Exception e"
  shows "process_cycle env timeframe st =
          ((fst (process_symbols env timeframe pre st))
             \<lparr>p_logged := p_logged (fst (process_symbols env timeframe pre st))
                           @ [(ERROR, ''Error processing '' @ timeframe)],
              p_slept := p_slept st @ [5]\<rparr>, None)
       \<and> snd (process_symbols env timeframe pre st) = None
       \<and> (p_running st \<longrightarrow>
            process_timeframe timeframe (env # envs) st =
            process_timeframe timeframe envs
              ((fst (process_symbols env timeframe pre st))
                 \<lparr>p_logged := p_logged (fst (process_symbols env timeframe pre st))
                               @ [(ERROR, ''Error processing '' @ timeframe)],
                  p_slept := p_slept st @ [5]\<rparr>))"
proof -
  note s = process_symbols_stops[OF assms(2,3), of timeframe post st]
  have c: "process_cycle env timeframe st =
          ((fst (process_symbols env timeframe pre st))
             \<lparr>p_logged := p_logged (fst (process_symbols env timeframe pre st))
                           @ [(ERROR, ''Error processing '' @ timeframe)],
              p_slept := p_slept st @ [5]\<rparr>, None)"
    using assms(1,4) s by (simp add: process_cycle_def process_symbols_slept)
  then show ?thesis using s by simp
qed

text \<open>The theorem at the cycle with two symbols in which the read for the first one
  raises.\<close>

theorem process_cycle_error_witness:
  "symbols_reply sample_env = Inr ([] @ ''adausdt'' # [''btcusdt''])
   \<and> ticks_reply sample_env ''adausdt'' = Inl (OperationalError ''database is locked'')
   \<and> is_Exception (OperationalError ''database is locked'')
   \<and> process_cycle sample_env ''1s'' sample_processor =
      (sample_processor\<lparr>p_logged := [(ERROR, ''Error processing 1s'')], p_slept := [5]\<rparr>, None)"
  using process_cycle_error_ends_cycle[of sample_env "[]" "''adausdt''" "[''btcusdt'']"
      "OperationalError ''database is locked''" "''1s''" sample_processor "[]"]
  by (simp add: sample_env_def is_Exception_def sample_processor_def)

text \<open>
  C1 as stated fails. The known symbols are \<open>adausdt\<close> and \<open>btcusdt\<close>, and the read of
  the ticks of \<open>adausdt\<close> raises. The cycle ends with the error logged and the sleep of
  5, and the database is still empty: \<open>btcusdt\<close>, which has a tick, was not processed.
  In a cycle with \<open>btcusdt\<close> alone its bar is stored.
\<close>

theorem process_cycle_remaining_symbols_counterexample:
  "process_cycle sample_env ''1s'' sample_processor =
      (sample_processor\<lparr>p_logged := [(ERROR, ''Error processing 1s'')], p_slept := [5]\<rparr>, None)
   \<and> p_db sample_processor = empty_db
   \<and> process_cycle (sample_env\<lparr>symbols_reply := Inr [''btcusdt'']\<rparr>) ''1s'' sample_processor =
      (sample_processor\<lparr>p_db := sample_db,
          p_logged := [(DEBUG, ''Processed 1s bars for btcusdt'')], p_slept := [1]\<rparr>, None)"
  by (simp add: process_cycle_def sample_env_def sample_processor_def is_Exception_def
      sample_bar insert_ohlc_def ohlc_id_def isoformat_epoch wait_seconds_def sample_db_def
      sample_row_def empty_db_def)

end
